theory Spec2Isabelle
  imports Complex_Main
begin

section \<open>Conventions\<close>

text \<open>
  Python floats (times in seconds, audio samples, RMS volumes) are modelled as real
  numbers: rounding, NaN and infinities are outside the model.  Python integers are
  \<open>int\<close>, or \<open>nat\<close> for counters that never go below zero.  The wall clock
  (\<^verbatim>\<open>time.time()\<close>) is a parameter \<open>now\<close> of every operation that reads it.
  Logging is dropped; locks are dropped too, every operation being one atomic step.
\<close>

datatype py_error = ValueError | ZeroDivisionError

text \<open>\<^verbatim>\<open>int(x)\<close> on a float truncates toward zero.\<close>

definition py_int :: "real \<Rightarrow> int" where
  "py_int x = (if 0 \<le> x then \<lfloor>x\<rfloor> else \<lceil>x\<rceil>)"

text \<open>\<^verbatim>\<open>a / b\<close> raises on a zero divisor.\<close>

definition py_truediv :: "real \<Rightarrow> real \<Rightarrow> py_error + real" where
  "py_truediv a b = (if b = 0 then Inl ZeroDivisionError else Inr (a / b))"

text \<open>Truth value of an optional float: \<^verbatim>\<open>None\<close> and \<^verbatim>\<open>0.0\<close> are false.\<close>

fun truthy :: "real option \<Rightarrow> bool" where
  "truthy None = False"
| "truthy (Some t) = (t \<noteq> 0)"

text \<open>\<^verbatim>\<open>xs[a:b]\<close> for \<open>0 \<le> a\<close> and \<open>0 \<le> b\<close>.\<close>

definition py_slice :: "nat \<Rightarrow> nat \<Rightarrow> 'a list \<Rightarrow> 'a list" where
  "py_slice a b xs = take (b - a) (drop a xs)"

section \<open>audio_buffer.py: CircularAudioBuffer\<close>

record CircularAudioBuffer =
  capacity_seconds :: nat
  sample_rate :: nat
  channels :: nat
  buffer_size :: nat
  buffer :: "real list"
  write_position :: nat
  total_samples_written :: nat
  start_time_buf :: "real option"
  is_recording :: bool
  last_write_time :: real

text \<open>The constructor (\<^verbatim>\<open>__init__\<close>); the field \<^verbatim>\<open>start_time\<close> is \<open>start_time_buf\<close> here.\<close>

definition init_buffer :: "nat \<Rightarrow> nat \<Rightarrow> nat \<Rightarrow> real \<Rightarrow> CircularAudioBuffer" where
  "init_buffer cap rate ch now =
     \<lparr> capacity_seconds = cap, sample_rate = rate, channels = ch,
       buffer_size = cap * rate * ch,
       buffer = replicate (cap * rate * ch) 0,
       write_position = 0, total_samples_written = 0,
       start_time_buf = None, is_recording = False, last_write_time = now \<rparr>"

definition start_recording :: "CircularAudioBuffer \<Rightarrow> real \<Rightarrow> CircularAudioBuffer" where
  "start_recording b now =
     b\<lparr> write_position := 0, total_samples_written := 0,
        start_time_buf := Some now, is_recording := True, last_write_time := now \<rparr>"

definition stop_recording :: "CircularAudioBuffer \<Rightarrow> CircularAudioBuffer" where
  "stop_recording b = b\<lparr> is_recording := False \<rparr>"

definition clear :: "CircularAudioBuffer \<Rightarrow> CircularAudioBuffer" where
  "clear b =
     b\<lparr> buffer := replicate (length (buffer b)) 0,
        write_position := 0, total_samples_written := 0,
        start_time_buf := None, is_recording := False \<rparr>"

text \<open>
  \<^verbatim>\<open>write\<close>.  A slice assignment whose right-hand side has another length than the
  slice raises ValueError (a right-hand side of length one is broadcast instead); the
  final \<^verbatim>\<open>end_position % self.buffer_size\<close> raises on an empty buffer.
\<close>

definition write_buf :: "CircularAudioBuffer \<Rightarrow> real list \<Rightarrow> real \<Rightarrow> py_error + CircularAudioBuffer" where
  "write_buf b audio_data now =
     (if \<not> is_recording b then Inr b
      else
        let data_length = length audio_data;
            end_position = write_position b + data_length
        in
          if end_position \<le> buffer_size b then
            (if buffer_size b = 0 then Inl ZeroDivisionError
             else Inr (b\<lparr> buffer := take (write_position b) (buffer b) @ audio_data
                                       @ drop end_position (buffer b),
                          write_position := end_position mod buffer_size b,
                          total_samples_written := total_samples_written b + data_length,
                          last_write_time := now \<rparr>))
          else
            let first_part_size = buffer_size b - write_position b;
                second_part_size = data_length - first_part_size;
                buffer1 = take (write_position b) (buffer b) @ take first_part_size audio_data
            in
              if buffer_size b < second_part_size \<and> second_part_size \<noteq> 1 then Inl ValueError
              else if buffer_size b = 0 then Inl ZeroDivisionError
              else Inr (b\<lparr> buffer := drop first_part_size audio_data
                                         @ drop second_part_size buffer1,
                            write_position := end_position mod buffer_size b,
                            total_samples_written := total_samples_written b + data_length,
                            last_write_time := now \<rparr>))"

definition get_time_since_last_write :: "CircularAudioBuffer \<Rightarrow> real \<Rightarrow> real" where
  "get_time_since_last_write b now = now - last_write_time b"

text \<open>The two sample positions \<^verbatim>\<open>read_segment\<close> computes from its float arguments.\<close>

definition start_sample_of :: "CircularAudioBuffer \<Rightarrow> real \<Rightarrow> int" where
  "start_sample_of b start_time_offset =
     py_int (start_time_offset * real (sample_rate b) * real (channels b))"

definition duration_samples_of :: "CircularAudioBuffer \<Rightarrow> real \<Rightarrow> int" where
  "duration_samples_of b dur = py_int (dur * real (sample_rate b) * real (channels b))"

text \<open>
  \<^verbatim>\<open>read_segment\<close>: \<open>Inr None\<close> is the result \<^verbatim>\<open>None\<close>, \<open>Inl\<close> an exception
  (the modulo by an empty buffer's size).
\<close>

definition read_segment :: "CircularAudioBuffer \<Rightarrow> real \<Rightarrow> real \<Rightarrow> py_error + real list option" where
  "read_segment b start_time_offset dur =
     (if \<not> truthy (start_time_buf b) then Inr None
      else
        let start_sample = start_sample_of b start_time_offset;
            duration_samples = duration_samples_of b dur;
            end_sample = start_sample + duration_samples
        in
          if start_sample < int (total_samples_written b) - int (buffer_size b) then Inr None
          else if end_sample > int (total_samples_written b) then Inr None
          else if buffer_size b = 0 then Inl ZeroDivisionError
          else
            let buffer_start = nat (start_sample mod int (buffer_size b));
                buffer_end = nat ((start_sample + duration_samples) mod int (buffer_size b))
            in
              if buffer_start < buffer_end
              then Inr (Some (py_slice buffer_start buffer_end (buffer b)))
              else Inr (Some (drop buffer_start (buffer b) @ take buffer_end (buffer b))))"

definition get_recording_duration :: "CircularAudioBuffer \<Rightarrow> real \<Rightarrow> py_error + real" where
  "get_recording_duration b now =
     (if total_samples_written b = 0 then
        (if is_recording b \<and> truthy (start_time_buf b)
         then Inr (now - the (start_time_buf b))
         else Inr 0)
      else py_truediv (real (total_samples_written b))
                      (real (sample_rate b * channels b)))"

definition get_available_duration :: "CircularAudioBuffer \<Rightarrow> py_error + real" where
  "get_available_duration b =
     py_truediv (real (min (total_samples_written b) (buffer_size b)))
                (real (sample_rate b * channels b))"

definition get_latest_segment :: "CircularAudioBuffer \<Rightarrow> real \<Rightarrow> py_error + real list option" where
  "get_latest_segment b dur =
     (if \<not> is_recording b \<or> \<not> truthy (start_time_buf b) then Inr None
      else
        case py_truediv (real (total_samples_written b)) (real (sample_rate b * channels b)) of
          Inl e \<Rightarrow> Inl e
        | Inr audio_data_duration \<Rightarrow>
            if audio_data_duration < dur then Inr None
            else read_segment b (audio_data_duration - dur) dur)"

section \<open>audio_buffer.py: BufferSegmentIterator\<close>

text \<open>
  The iterator holds a reference to the buffer; here the buffer is an argument of
  \<open>has_next\<close> and \<open>iter_next\<close>.  \<open>iter_next\<close> returns \<open>Inr None\<close> where
  \<^verbatim>\<open>__next__\<close> raises StopIteration.
\<close>

record BufferSegmentIterator =
  window_size :: real
  overlap :: real
  step_size :: real
  current_position :: real

definition init_iterator :: "real \<Rightarrow> real \<Rightarrow> BufferSegmentIterator" where
  "init_iterator window ovl =
     \<lparr> window_size = window, overlap = ovl, step_size = window - ovl, current_position = 0 \<rparr>"

definition reset_to_position :: "BufferSegmentIterator \<Rightarrow> real \<Rightarrow> BufferSegmentIterator" where
  "reset_to_position it pos = it\<lparr> current_position := max 0 pos \<rparr>"

definition has_next :: "BufferSegmentIterator \<Rightarrow> CircularAudioBuffer \<Rightarrow> py_error + bool" where
  "has_next it b =
     (case get_available_duration b of
        Inl e \<Rightarrow> Inl e
      | Inr available_duration \<Rightarrow>
          Inr (current_position it + window_size it \<le> available_duration))"

definition iter_next ::
  "BufferSegmentIterator \<Rightarrow> CircularAudioBuffer
     \<Rightarrow> py_error + ((real \<times> real list) \<times> BufferSegmentIterator) option" where
  "iter_next it b =
     (case get_available_duration b of
        Inl e \<Rightarrow> Inl e
      | Inr available_duration \<Rightarrow>
          if current_position it + window_size it > available_duration then Inr None
          else
            (case read_segment b (current_position it) (window_size it) of
               Inl e \<Rightarrow> Inl e
             | Inr None \<Rightarrow> Inr None
             | Inr (Some segment) \<Rightarrow>
                 Inr (Some ((current_position it, segment),
                            it\<lparr> current_position := current_position it + step_size it \<rparr>))))"

section \<open>Ring buffer: a session of writes\<close>

text \<open>
  The writes of the capture thread, one after the other, each with the wall-clock time
  at which it happens; an exception ends the session.
\<close>

fun write_all :: "CircularAudioBuffer \<Rightarrow> (real list \<times> real) list \<Rightarrow> py_error + CircularAudioBuffer" where
  "write_all b [] = Inr b"
| "write_all b ((audio_data, now) # ws) =
     (case write_buf b audio_data now of
        Inl e \<Rightarrow> Inl e
      | Inr b' \<Rightarrow> write_all b' ws)"

text \<open>
  The state of a recording buffer in terms of the stream \<open>xs\<close> of all samples written
  since \<^verbatim>\<open>start_recording\<close>: sample \<open>k\<close> of the stream lies at position
  \<open>k mod buffer_size\<close> as long as it is among the last \<open>buffer_size\<close> samples.
\<close>

definition holds_stream :: "CircularAudioBuffer \<Rightarrow> real list \<Rightarrow> bool" where
  "holds_stream b xs \<longleftrightarrow>
     0 < buffer_size b \<and> length (buffer b) = buffer_size b
     \<and> is_recording b \<and> truthy (start_time_buf b)
     \<and> total_samples_written b = length xs
     \<and> write_position b = length xs mod buffer_size b
     \<and> (\<forall>k < length xs. length xs \<le> k + buffer_size b \<longrightarrow>
           buffer b ! (k mod buffer_size b) = xs ! k)"

section \<open>volume_segmenter.py: VolumeSegmenter\<close>

record SegmentInfo =
  start_time :: real
  end_time :: real
  duration :: real
  reason :: string
  avg_volume :: real
  peak_volume :: real
  silence_duration :: real

record VolumeConfig =
  min_segment_duration :: real
  target_segment_duration :: real
  max_segment_duration :: real
  volume_drop_threshold :: real
  silence_threshold :: real
  min_pause_duration :: real
  analysis_window :: real
  lookback_window :: real

definition default_config :: VolumeConfig where
  "default_config =
     \<lparr> min_segment_duration = 30, target_segment_duration = 45, max_segment_duration = 90,
       volume_drop_threshold = 7 / 10, silence_threshold = 2 / 100, min_pause_duration = 1 / 2,
       analysis_window = 1, lookback_window = 5 \<rparr>"

text \<open>
  The segmenter's fields.  Its buffer is an argument of the operations that read it: the
  capture thread changes it between calls.  The segment callback is external and its
  exceptions are swallowed; it is left out, as is the verbose flag, which only logs.
\<close>

record VolumeSegmenter =
  config :: VolumeConfig
  current_segment_start :: real
  last_analysis_time :: real
  last_speech_time :: real
  volume_history :: "(real \<times> real) list"
  detected_segments :: "SegmentInfo list"
  is_analyzing :: bool

definition init_segmenter :: "VolumeConfig \<Rightarrow> VolumeSegmenter" where
  "init_segmenter cfg =
     \<lparr> config = cfg, current_segment_start = 0, last_analysis_time = 0,
       last_speech_time = 0, volume_history = [], detected_segments = [],
       is_analyzing = False \<rparr>"

definition start_analysis :: "VolumeSegmenter \<Rightarrow> VolumeSegmenter" where
  "start_analysis s =
     s\<lparr> current_segment_start := 0, last_analysis_time := 0, last_speech_time := 0,
        volume_history := [], detected_segments := [], is_analyzing := True \<rparr>"

definition stop_analysis :: "VolumeSegmenter \<Rightarrow> VolumeSegmenter" where
  "stop_analysis s = s\<lparr> is_analyzing := False \<rparr>"

text \<open>\<^verbatim>\<open>np.mean\<close> and \<^verbatim>\<open>np.max\<close>, used on non-empty lists only.\<close>

definition mean :: "real list \<Rightarrow> real" where
  "mean xs = sum_list xs / real (length xs)"

definition np_max :: "real list \<Rightarrow> real" where
  "np_max xs = foldl max (hd xs) (tl xs)"

definition volumes_in_range :: "(real \<times> real) list \<Rightarrow> real \<Rightarrow> real \<Rightarrow> real list" where
  "volumes_in_range hist lo hi = map snd (filter (\<lambda>(t, v). lo \<le> t \<and> t \<le> hi) hist)"

definition get_average_volume_in_range :: "VolumeSegmenter \<Rightarrow> real \<Rightarrow> real \<Rightarrow> real" where
  "get_average_volume_in_range s lo hi =
     (let relevant_volumes = volumes_in_range (volume_history s) lo hi
      in if relevant_volumes \<noteq> [] then mean relevant_volumes else 0)"

definition get_peak_volume_in_range :: "VolumeSegmenter \<Rightarrow> real \<Rightarrow> real \<Rightarrow> real" where
  "get_peak_volume_in_range s lo hi =
     (let relevant_volumes = volumes_in_range (volume_history s) lo hi
      in if relevant_volumes \<noteq> [] then np_max relevant_volumes else 0)"

definition calculate_rms :: "real list \<Rightarrow> real" where
  "calculate_rms audio_data =
     (if length audio_data = 0 then 0
      else sqrt (mean (map (\<lambda>x. x ^ 2) audio_data)))"

definition create_segment :: "VolumeSegmenter \<Rightarrow> real \<Rightarrow> string \<Rightarrow> real \<Rightarrow> SegmentInfo" where
  "create_segment s end_t why silence =
     \<lparr> start_time = current_segment_start s,
       end_time = end_t,
       duration = end_t - current_segment_start s,
       reason = why,
       avg_volume = get_average_volume_in_range s (current_segment_start s) end_t,
       peak_volume = get_peak_volume_in_range s (current_segment_start s) end_t,
       silence_duration = silence \<rparr>"

definition finalize_segment :: "VolumeSegmenter \<Rightarrow> SegmentInfo \<Rightarrow> VolumeSegmenter" where
  "finalize_segment s segment =
     s\<lparr> detected_segments := detected_segments s @ [segment],
        current_segment_start := end_time segment \<rparr>"

text \<open>
  The loop of \<^verbatim>\<open>_update_volume_history\<close>.  One pass through the loop is
  \<open>update_step\<close>: the test \<^verbatim>\<open>iterator.has_next()\<close>, \<^verbatim>\<open>next(iterator)\<close> (whose
  StopIteration is caught around the loop), the \<^verbatim>\<open>break\<close> on a timestamp at or
  after the current time, and the body.  The state of the loop is the iterator, the
  history and the last speech time.
\<close>

datatype loop_step =
  Raise py_error
| Leave
| Continue BufferSegmentIterator "(real \<times> real) list" real

definition update_step ::
  "CircularAudioBuffer \<Rightarrow> VolumeConfig \<Rightarrow> real \<Rightarrow> BufferSegmentIterator
     \<Rightarrow> (real \<times> real) list \<Rightarrow> real \<Rightarrow> loop_step" where
  "update_step b cfg current_time it hist speech =
     (case has_next it b of
        Inl e \<Rightarrow> Raise e
      | Inr available \<Rightarrow>
          if \<not> available then Leave
          else
            (case iter_next it b of
               Inl e \<Rightarrow> Raise e
             | Inr None \<Rightarrow> Leave
             | Inr (Some ((timestamp, audio_segment), it')) \<Rightarrow>
                 if timestamp \<ge> current_time then Leave
                 else
                   let rms_volume = calculate_rms audio_segment
                   in Continue it' (hist @ [(timestamp, rms_volume)])
                        (if rms_volume \<ge> silence_threshold cfg then timestamp else speech)))"

text \<open>
  The loop need not end (a window of length zero never advances), so it is a partial
  function: \<open>None\<close> is a run that does not return.
\<close>

partial_function (option) update_loop ::
  "CircularAudioBuffer \<Rightarrow> VolumeConfig \<Rightarrow> real \<Rightarrow> BufferSegmentIterator
     \<Rightarrow> (real \<times> real) list \<Rightarrow> real \<Rightarrow> (py_error + (real \<times> real) list \<times> real) option" where
  "update_loop b cfg current_time it hist speech =
     (case update_step b cfg current_time it hist speech of
        Raise e \<Rightarrow> Some (Inl e)
      | Leave \<Rightarrow> Some (Inr (hist, speech))
      | Continue it' hist' speech' \<Rightarrow> update_loop b cfg current_time it' hist' speech')"

definition update_volume_history ::
  "VolumeSegmenter \<Rightarrow> CircularAudioBuffer \<Rightarrow> real \<Rightarrow> (py_error + VolumeSegmenter) option" where
  "update_volume_history s b current_time =
     (let analysis_start = max (last_analysis_time s) 0;
          iterator = reset_to_position (init_iterator (analysis_window (config s)) 0) analysis_start
      in
        case update_loop b (config s) current_time iterator (volume_history s) (last_speech_time s) of
          None \<Rightarrow> None
        | Some (Inl e) \<Rightarrow> Some (Inl e)
        | Some (Inr (hist, speech)) \<Rightarrow>
            let cutoff_time = current_time - lookback_window (config s) * 2
            in Some (Inr (s\<lparr> volume_history := filter (\<lambda>(t, v). t \<ge> cutoff_time) hist,
                             last_speech_time := speech \<rparr>)))"

text \<open>
  The scan of \<^verbatim>\<open>_detect_natural_pause\<close> over the recent windows: the result is the
  pair \<^verbatim>\<open>(silence_start, silence_end)\<close> when the loop is left, by \<^verbatim>\<open>break\<close> or at
  the end of the list.
\<close>

fun scan_silence ::
  "(real \<Rightarrow> bool) \<Rightarrow> (real \<times> real) list \<Rightarrow> real option \<Rightarrow> real option \<times> real option" where
  "scan_silence is_silence [] silence_start = (silence_start, None)"
| "scan_silence is_silence ((timestamp, volume) # rest) silence_start =
     (if is_silence volume \<and> silence_start = None
      then scan_silence is_silence rest (Some timestamp)
      else if \<not> is_silence volume \<and> silence_start \<noteq> None
      then (silence_start, Some timestamp)
      else scan_silence is_silence rest silence_start)"

definition detect_natural_pause :: "VolumeSegmenter \<Rightarrow> real \<Rightarrow> (real \<times> real) option" where
  "detect_natural_pause s current_time =
     (if length (volume_history s) < 3 then None
      else
        let lookback_start = current_time - lookback_window (config s);
            recent_volumes = filter (\<lambda>(t, v). t \<ge> lookback_start) (volume_history s)
        in
          if length recent_volumes < 3 then None
          else
            let baseline_start = max (current_segment_start s)
                                     (current_time - lookback_window (config s));
                baseline_volumes = volumes_in_range recent_volumes baseline_start (current_time - 2)
            in
              if baseline_volumes = [] then None
              else
                let baseline_volume = mean baseline_volumes;
                    is_silence = (\<lambda>volume. volume < silence_threshold (config s)
                                   \<or> volume < baseline_volume * volume_drop_threshold (config s));
                    (silence_start, silence_end0) = scan_silence is_silence recent_volumes None;
                    silence_end = (if silence_start \<noteq> None \<and> silence_end0 = None
                                   then Some current_time else silence_end0)
                in
                  case (silence_start, silence_end) of
                    (Some ss, Some se) \<Rightarrow>
                      if se - ss \<ge> min_pause_duration (config s) then Some (se, se - ss) else None
                  | _ \<Rightarrow> None)"

definition check_for_segment_boundary :: "VolumeSegmenter \<Rightarrow> real \<Rightarrow> SegmentInfo option" where
  "check_for_segment_boundary s current_time =
     (let current_duration = current_time - current_segment_start s
      in
        if current_duration \<ge> max_segment_duration (config s)
        then Some (create_segment s current_time ''max_length'' 0)
        else if current_duration < min_segment_duration (config s) then None
        else if current_duration \<ge> target_segment_duration (config s) then
          (case detect_natural_pause s current_time of
             Some (pause_end_time, silence) \<Rightarrow>
               Some (create_segment s pause_end_time ''natural_pause'' silence)
           | None \<Rightarrow> None)
        else None)"

text \<open>
  \<^verbatim>\<open>analyze_and_segment\<close> returns the new segments and the segmenter after the call.
  An exception (\<open>Inl\<close>) can only come from the first look at the buffer, before the
  segmenter has been changed.
\<close>

definition analyze_and_segment ::
  "VolumeSegmenter \<Rightarrow> CircularAudioBuffer \<Rightarrow> real
     \<Rightarrow> (py_error + SegmentInfo list \<times> VolumeSegmenter) option" where
  "analyze_and_segment s b now =
     (if \<not> is_analyzing s then Some (Inr ([], s))
      else
        case get_recording_duration b now of
          Inl e \<Rightarrow> Some (Inl e)
        | Inr current_time \<Rightarrow>
            if current_time \<le> last_analysis_time s then Some (Inr ([], s))
            else
              (case update_volume_history s b current_time of
                 None \<Rightarrow> None
               | Some (Inl e) \<Rightarrow> Some (Inl e)
               | Some (Inr s1) \<Rightarrow>
                   (case check_for_segment_boundary s1 current_time of
                      Some segment \<Rightarrow>
                        Some (Inr ([segment],
                                   (finalize_segment s1 segment)\<lparr> last_analysis_time := current_time \<rparr>))
                    | None \<Rightarrow>
                        Some (Inr ([], s1\<lparr> last_analysis_time := current_time \<rparr>)))))"

definition flush_remaining_segment ::
  "VolumeSegmenter \<Rightarrow> CircularAudioBuffer \<Rightarrow> real
     \<Rightarrow> py_error + SegmentInfo option \<times> VolumeSegmenter" where
  "flush_remaining_segment s b now =
     (if \<not> is_analyzing s then Inr (None, s)
      else
        case get_recording_duration b now of
          Inl e \<Rightarrow> Inl e
        | Inr current_time \<Rightarrow>
            let remaining_duration = current_time - current_segment_start s
            in
              if remaining_duration < 5 then Inr (None, s)
              else
                let segment =
                      \<lparr> start_time = current_segment_start s,
                        end_time = current_time,
                        duration = remaining_duration,
                        reason = ''final_flush'',
                        avg_volume = get_average_volume_in_range s (current_segment_start s) current_time,
                        peak_volume = get_peak_volume_in_range s (current_segment_start s) current_time,
                        silence_duration = 0 \<rparr>
                in Inr (Some segment, finalize_segment s segment))"

definition get_current_silence_duration ::
  "VolumeSegmenter \<Rightarrow> CircularAudioBuffer \<Rightarrow> real \<Rightarrow> py_error + real" where
  "get_current_silence_duration s b now =
     (case get_recording_duration b now of
        Inl e \<Rightarrow> Inl e
      | Inr t \<Rightarrow> Inr (t - last_speech_time s))"

definition get_detected_segments :: "VolumeSegmenter \<Rightarrow> SegmentInfo list" where
  "get_detected_segments s = detected_segments s"

definition clear_segments :: "VolumeSegmenter \<Rightarrow> VolumeSegmenter" where
  "clear_segments s = s\<lparr> detected_segments := [] \<rparr>"

section \<open>Volume segmenter: the specification's notions\<close>

text \<open>
  The natural-pause rule in the specification's words, to be compared with
  \<open>detect_natural_pause\<close>: the trailing lookback window of the history, the baseline
  samples, the silence test, the first maximal run of silent windows, and the pause that
  qualifies.
\<close>

definition recent_windows :: "VolumeSegmenter \<Rightarrow> real \<Rightarrow> (real \<times> real) list" where
  "recent_windows s T =
     filter (\<lambda>(t, v). T - lookback_window (config s) \<le> t) (volume_history s)"

definition baseline_samples :: "VolumeSegmenter \<Rightarrow> real \<Rightarrow> real list" where
  "baseline_samples s T =
     map snd (filter (\<lambda>(t, v). current_segment_start s \<le> t \<and> t \<le> T - 2) (recent_windows s T))"

definition is_silent_window :: "VolumeConfig \<Rightarrow> real \<Rightarrow> real \<Rightarrow> bool" where
  "is_silent_window cfg baseline v =
     (v < silence_threshold cfg \<or> v < baseline * volume_drop_threshold cfg)"

definition first_silent_run ::
  "(real \<Rightarrow> bool) \<Rightarrow> (real \<times> real) list \<Rightarrow> real \<Rightarrow> (real \<times> real) option" where
  "first_silent_run silent windows T =
     (case dropWhile (\<lambda>(t, v). \<not> silent v) windows of
        [] \<Rightarrow> None
      | (run_start, v0) # rest \<Rightarrow>
          Some (run_start,
                case dropWhile (\<lambda>(t, v). silent v) rest of
                  [] \<Rightarrow> T
                | (run_end, v1) # rest' \<Rightarrow> run_end))"

definition qualifying_pause :: "VolumeSegmenter \<Rightarrow> real \<Rightarrow> (real \<times> real) option" where
  "qualifying_pause s T =
     (if baseline_samples s T = [] then None
      else
        case first_silent_run (is_silent_window (config s) (mean (baseline_samples s T)))
               (recent_windows s T) T of
          None \<Rightarrow> None
        | Some (run_start, run_end) \<Rightarrow>
            if min_pause_duration (config s) \<le> run_end - run_start
            then Some (run_end, run_end - run_start)
            else None)"

text \<open>
  A session of the segmenter as its driver runs it: calls of \<^verbatim>\<open>analyze_and_segment\<close> and
  \<^verbatim>\<open>flush_remaining_segment\<close>, each seeing the buffer and the wall clock of its moment.
  The driver catches an exception of a call and goes on.  The result is the list of all
  segments the calls returned and the segmenter at the end; \<open>None\<close> if a call does not
  return.
\<close>

datatype segmenter_call =
  Analyze CircularAudioBuffer real
| Flush CircularAudioBuffer real

fun run_calls :: "VolumeSegmenter \<Rightarrow> segmenter_call list \<Rightarrow> (SegmentInfo list \<times> VolumeSegmenter) option" where
  "run_calls s [] = Some ([], s)"
| "run_calls s (Analyze b now # calls) =
     (case analyze_and_segment s b now of
        None \<Rightarrow> None
      | Some (Inl e) \<Rightarrow> run_calls s calls
      | Some (Inr (segs, s')) \<Rightarrow>
          (case run_calls s' calls of
             None \<Rightarrow> None
           | Some (emitted, s'') \<Rightarrow> Some (segs @ emitted, s'')))"
| "run_calls s (Flush b now # calls) =
     (case flush_remaining_segment s b now of
        Inl e \<Rightarrow> run_calls s calls
      | Inr (g, s') \<Rightarrow>
          (case run_calls s' calls of
             None \<Rightarrow> None
           | Some (emitted, s'') \<Rightarrow> Some ((case g of None \<Rightarrow> [] | Some x \<Rightarrow> [x]) @ emitted, s'')))"

text \<open>
  A contiguous partition of audio time from \<open>t\<close> on: each segment starts where the one
  before it ended (the first at \<open>t\<close>), ends after it starts, and has the duration
  \<open>end_time - start_time\<close>.
\<close>

fun partition_from :: "real \<Rightarrow> SegmentInfo list \<Rightarrow> bool" where
  "partition_from t [] = True"
| "partition_from t (g # gs) =
     (start_time g = t \<and> start_time g < end_time g
      \<and> duration g = end_time g - start_time g \<and> partition_from (end_time g) gs)"

section \<open>quick_transcript.py: strings\<close>

text \<open>
  Python strings are modelled as \<open>string\<close>, with one \<open>char\<close> per code point below 256.
  \<^verbatim>\<open>str.strip()\<close> removes the white space of \<^verbatim>\<open>str.isspace\<close> at both ends: the code
  points 9 to 13, 28 to 32, 133 and 160 in that range.
\<close>

definition is_space :: "char \<Rightarrow> bool" where
  "is_space c = (c \<in> {CHR 0x09, CHR 0x0A, CHR 0x0B, CHR 0x0C, CHR 0x0D, CHR 0x1C, CHR 0x1D,
                        CHR 0x1E, CHR 0x1F, CHR 0x20, CHR 0x85, CHR 0xA0})"

definition strip :: "string \<Rightarrow> string" where
  "strip s = rev (dropWhile is_space (rev (dropWhile is_space s)))"

text \<open>\<^verbatim>\<open>sep.join(parts)\<close>.\<close>

fun str_join :: "string \<Rightarrow> string list \<Rightarrow> string" where
  "str_join sep [] = []"
| "str_join sep [x] = x"
| "str_join sep (x # y # ys) = x @ sep @ str_join sep (y # ys)"

text \<open>\<^verbatim>\<open>str(n)\<close> for an integer, as an f-string prints it.\<close>

fun str_nat :: "nat \<Rightarrow> string" where
  "str_nat n =
     (if n < 10 then [char_of (48 + n)]
      else str_nat (n div 10) @ [char_of (48 + n mod 10)])"

definition str_int :: "int \<Rightarrow> string" where
  "str_int i = (if i < 0 then CHR ''-'' # str_nat (nat (- i)) else str_nat (nat i))"

text \<open>Truth value of an optional string: \<^verbatim>\<open>None\<close> and the empty string are false.\<close>

fun truthy_str :: "string option \<Rightarrow> bool" where
  "truthy_str None = False"
| "truthy_str (Some x) = (x \<noteq> [])"

section \<open>quick_transcript.py: QuickTranscriptAssembler\<close>

text \<open>
  A Python dictionary keeps its keys in the order of their first insertion; assigning to
  a key that is present replaces the value in place.
\<close>

fun dict_set :: "'k \<Rightarrow> 'v \<Rightarrow> ('k \<times> 'v) list \<Rightarrow> ('k \<times> 'v) list" where
  "dict_set k v [] = [(k, v)]"
| "dict_set k v ((k', v') # d) = (if k' = k then (k, v) # d else (k', v') # dict_set k v d)"

definition dict_get :: "('k \<times> 'v) list \<Rightarrow> 'k \<Rightarrow> 'v option" where
  "dict_get d k = map_of d k"

definition dict_values :: "('k \<times> 'v) list \<Rightarrow> 'v list" where
  "dict_values d = map snd d"

record TranscriptionSegment =
  segment_info :: SegmentInfo
  transcription :: string
  timestamp :: real
  processing_time :: real
  status :: string
  error :: "string option"

record ProcessingStats =
  segments_received :: nat
  segments_completed :: nat
  segments_failed :: nat
  total_processing_time :: real

text \<open>The processing summary of a result: a copy of the statistics with one more entry.\<close>

record ProcessingSummary = ProcessingStats +
  session_duration :: real

record QuickTranscriptResult =
  transcript_id :: "string option"
  transcript_text :: string
  segments_count :: nat
  total_duration :: real
  processing_summary :: ProcessingSummary
  file_path :: string
  clipboard_copied :: bool
  has_content :: bool

text \<open>
  The assembler's fields.  The two file managers and the two callbacks are external and
  left out; what the assembler asks of the transcript manager and of the clipboard is
  recorded as a list of effects, and their answers are parameters.
\<close>

record QuickTranscriptAssembler =
  auto_clipboard :: bool
  current_session :: "string option"
  final_transcript_id :: "string option"
  transcription_segments :: "(string \<times> TranscriptionSegment) list"
  segment_order :: "string list"
  is_processing :: bool
  recent_segment_texts :: "string list"
  empty_segment_threshold :: int
  empty_segment_min_chars :: int
  session_start_time :: "real option"
  processing_stats :: ProcessingStats

definition zero_stats :: ProcessingStats where
  "zero_stats = \<lparr> segments_received = 0, segments_completed = 0, segments_failed = 0,
                  total_processing_time = 0 \<rparr>"

text \<open>
  The constructor; the two thresholds are read from the environment
  (\<^verbatim>\<open>EMPTY_SEGMENT_THRESHOLD\<close>, default 3, and \<^verbatim>\<open>EMPTY_SEGMENT_MIN_CHARS\<close>, default 10).
\<close>

definition init_assembler :: "bool \<Rightarrow> int \<Rightarrow> int \<Rightarrow> QuickTranscriptAssembler" where
  "init_assembler clipboard threshold min_chars =
     \<lparr> auto_clipboard = clipboard, current_session = None, final_transcript_id = None,
       transcription_segments = [], segment_order = [], is_processing = False,
       recent_segment_texts = [], empty_segment_threshold = threshold,
       empty_segment_min_chars = min_chars, session_start_time = None,
       processing_stats = zero_stats \<rparr>"

definition calculate_completion_timeout :: "QuickTranscriptAssembler \<Rightarrow> real" where
  "calculate_completion_timeout a =
     (if transcription_segments a = [] then 10
      else
        let durations = map (\<lambda>seg. duration (segment_info seg))
                            (dict_values (transcription_segments a));
            total = sum_list durations;
            longest = np_max durations
        in max (max 30 (longest * 2)) (total * (3 / 2)))"

definition start_session :: "QuickTranscriptAssembler \<Rightarrow> string \<Rightarrow> real \<Rightarrow> QuickTranscriptAssembler" where
  "start_session a session_id now =
     a\<lparr> current_session := Some session_id, transcription_segments := [],
        segment_order := [], is_processing := True, session_start_time := Some now,
        processing_stats := zero_stats \<rparr>"

text \<open>
  \<^verbatim>\<open>add_segment_for_transcription\<close>.  The identifier is an f-string of the start and end
  time rounded to one decimal; float formatting is not modelled and the identifier is an
  argument.  The thread the method starts runs \<^verbatim>\<open>_transcribe_segment\<close>, whose steps
  under the lock are the three operations below.
\<close>

definition add_segment_for_transcription ::
  "QuickTranscriptAssembler \<Rightarrow> string \<Rightarrow> SegmentInfo \<Rightarrow> real \<Rightarrow> string \<times> QuickTranscriptAssembler" where
  "add_segment_for_transcription a segment_id info now =
     (if \<not> is_processing a then ([], a)
      else
        let transcription_segment =
              \<lparr> segment_info = info, transcription = [], timestamp = now,
                processing_time = 0, status = ''pending'', error = None \<rparr>
        in (segment_id,
            a\<lparr> transcription_segments :=
                  dict_set segment_id transcription_segment (transcription_segments a),
               segment_order := segment_order a @ [segment_id],
               processing_stats := (processing_stats a)
                  \<lparr> segments_received := segments_received (processing_stats a) + 1 \<rparr> \<rparr>))"

definition update_empty_segment_counter ::
  "QuickTranscriptAssembler \<Rightarrow> string \<Rightarrow> QuickTranscriptAssembler" where
  "update_empty_segment_counter a text =
     (let texts = recent_segment_texts a @ [if text \<noteq> [] then strip text else []]
      in a\<lparr> recent_segment_texts :=
               (if int (length texts) > empty_segment_threshold a then tl texts else texts) \<rparr>)"

text \<open>
  \<^verbatim>\<open>_transcribe_segment\<close>, first locked block: \<open>False\<close> when the segment is unknown and
  the thread returns at once.
\<close>

definition transcribe_segment_begin ::
  "QuickTranscriptAssembler \<Rightarrow> string \<Rightarrow> bool \<times> QuickTranscriptAssembler" where
  "transcribe_segment_begin a segment_id =
     (case dict_get (transcription_segments a) segment_id of
        None \<Rightarrow> (False, a)
      | Some seg \<Rightarrow>
          (True, a\<lparr> transcription_segments :=
                      dict_set segment_id (seg\<lparr> status := ''processing'' \<rparr>)
                        (transcription_segments a) \<rparr>))"

text \<open>
  \<^verbatim>\<open>_transcribe_segment\<close> after the transcription has returned \<open>text\<close> in \<open>elapsed\<close>
  seconds: the second locked block, then the update of the sliding window.
\<close>

definition transcribe_segment_end ::
  "QuickTranscriptAssembler \<Rightarrow> string \<Rightarrow> string \<Rightarrow> real \<Rightarrow> QuickTranscriptAssembler" where
  "transcribe_segment_end a segment_id text elapsed =
     (let a1 =
        (case dict_get (transcription_segments a) segment_id of
           None \<Rightarrow> a
         | Some seg \<Rightarrow>
             a\<lparr> transcription_segments :=
                   dict_set segment_id
                     (seg\<lparr> transcription := text, processing_time := elapsed,
                          status := ''completed'' \<rparr>)
                     (transcription_segments a),
                processing_stats := (processing_stats a)
                   \<lparr> segments_completed := segments_completed (processing_stats a) + 1,
                     total_processing_time := total_processing_time (processing_stats a) + elapsed \<rparr> \<rparr>)
      in update_empty_segment_counter a1 text)"

text \<open>\<^verbatim>\<open>_transcribe_segment\<close>, the exception handler.\<close>

definition transcribe_segment_fail ::
  "QuickTranscriptAssembler \<Rightarrow> string \<Rightarrow> string \<Rightarrow> QuickTranscriptAssembler" where
  "transcribe_segment_fail a segment_id message =
     (case dict_get (transcription_segments a) segment_id of
        None \<Rightarrow> a
      | Some seg \<Rightarrow>
          a\<lparr> transcription_segments :=
                dict_set segment_id (seg\<lparr> status := ''failed'', error := Some message \<rparr>)
                  (transcription_segments a),
             processing_stats := (processing_stats a)
                \<lparr> segments_failed := segments_failed (processing_stats a) + 1 \<rparr> \<rparr>)"

text \<open>
  \<^verbatim>\<open>_transcribe_segment\<close> as a whole, for a thread that no other operation interleaves
  with and whose transcription returns \<open>text\<close>.
\<close>

definition transcribe_segment ::
  "QuickTranscriptAssembler \<Rightarrow> string \<Rightarrow> string \<Rightarrow> real \<Rightarrow> QuickTranscriptAssembler" where
  "transcribe_segment a segment_id text elapsed =
     (case transcribe_segment_begin a segment_id of
        (False, a1) \<Rightarrow> a1
      | (True, a1) \<Rightarrow> transcribe_segment_end a1 segment_id text elapsed)"

text \<open>The loop of \<^verbatim>\<open>get_current_transcript\<close> over \<^verbatim>\<open>segment_order\<close>.\<close>

fun collect_parts ::
  "(string \<times> TranscriptionSegment) list \<Rightarrow> string list \<Rightarrow> string list \<Rightarrow> string list" where
  "collect_parts segments [] transcript_parts = transcript_parts"
| "collect_parts segments (segment_id # ids) transcript_parts =
     (case dict_get segments segment_id of
        None \<Rightarrow> collect_parts segments ids transcript_parts
      | Some seg \<Rightarrow>
          if status seg = ''completed'' \<and> strip (transcription seg) \<noteq> []
          then collect_parts segments ids (transcript_parts @ [strip (transcription seg)])
          else collect_parts segments ids transcript_parts)"

definition get_current_transcript :: "QuickTranscriptAssembler \<Rightarrow> string" where
  "get_current_transcript a =
     str_join '' '' (collect_parts (transcription_segments a) (segment_order a) [])"

text \<open>
  \<^verbatim>\<open>wait_for_completion\<close> polls this count until it is zero or the timeout has passed; it
  changes nothing, and \<^verbatim>\<open>finalize_transcript\<close> ignores its result.
\<close>

definition pending_count :: "QuickTranscriptAssembler \<Rightarrow> nat" where
  "pending_count a =
     length (filter (\<lambda>seg. status seg = ''pending'' \<or> status seg = ''processing'')
               (dict_values (transcription_segments a)))"

datatype effect = SaveTranscript string | CopyToClipboard string

text \<open>
  \<^verbatim>\<open>finalize_transcript\<close> on the assembler as it is when the wait is over.  \<open>save\<close> is
  the transcript manager: the path and identifier of the new file, or \<open>None\<close> for an
  exception.  \<open>copy\<close> is the clipboard.  The result is \<^verbatim>\<open>None\<close> without an active
  session.
\<close>

definition finalize_transcript ::
  "QuickTranscriptAssembler \<Rightarrow> real \<Rightarrow> (string \<Rightarrow> (string \<times> string) option) \<Rightarrow> (string \<Rightarrow> bool)
     \<Rightarrow> QuickTranscriptResult option \<times> effect list \<times> QuickTranscriptAssembler" where
  "finalize_transcript a now save copy =
     (if \<not> truthy_str (current_session a) then (None, [], a)
      else
        let final_transcript = strip (get_current_transcript a);
            content = (final_transcript \<noteq> []);
            completed_segments = filter (\<lambda>seg. status seg = ''completed'')
                                   (dict_values (transcription_segments a));
            total = (if completed_segments \<noteq> []
                     then np_max (map (\<lambda>seg. end_time (segment_info seg)) completed_segments)
                     else 0);
            summary = ProcessingStats.extend (processing_stats a)
                        (ProcessingSummary.fields
                           (now - (case session_start_time a of None \<Rightarrow> 0 | Some t \<Rightarrow> t)));
            (path, saved_id, save_effects) =
              (if content then
                 (case save final_transcript of
                    Some (p, new_id) \<Rightarrow> (p, Some new_id, [SaveTranscript final_transcript])
                  | None \<Rightarrow> ([], final_transcript_id a, [SaveTranscript final_transcript]))
               else ([], None, []));
            (clipboard_success, clipboard_effects) =
              (if auto_clipboard a \<and> content
               then (copy final_transcript, [CopyToClipboard final_transcript])
               else (False, []));
            result =
              \<lparr> transcript_id = (if truthy_str saved_id then saved_id else current_session a),
                transcript_text = final_transcript,
                segments_count = length completed_segments,
                total_duration = total,
                processing_summary = summary,
                file_path = path,
                clipboard_copied = clipboard_success,
                has_content = content \<rparr>
        in (Some result, save_effects @ clipboard_effects,
            a\<lparr> final_transcript_id := saved_id, is_processing := False \<rparr>))"

definition should_auto_stop :: "QuickTranscriptAssembler \<Rightarrow> bool \<times> string" where
  "should_auto_stop a =
     (if int (length (recent_segment_texts a)) < empty_segment_threshold a then (False, [])
      else
        let combined_text = strip (str_join '' '' (recent_segment_texts a));
            combined_length = int (length combined_text)
        in
          if combined_length < empty_segment_min_chars a
          then (True, ''Last '' @ str_int (empty_segment_threshold a)
                      @ '' segments combined have < '' @ str_int (empty_segment_min_chars a)
                      @ '' chars ('' @ str_int combined_length @ '' chars)'')
          else (False, []))"

definition get_consecutive_empty_segments :: "QuickTranscriptAssembler \<Rightarrow> int" where
  "get_consecutive_empty_segments a =
     (if fst (should_auto_stop a) then empty_segment_threshold a else 0)"

section \<open>Transcript assembler: the specification's notions\<close>

text \<open>
  What one entry of the submission order contributes to the transcript, in the
  specification's words: the stripped text of a completed segment when it is not empty,
  nothing for any other segment.
\<close>

fun part_of :: "TranscriptionSegment option \<Rightarrow> string list" where
  "part_of None = []"
| "part_of (Some seg) =
     (if status seg = ''completed'' \<and> strip (transcription seg) \<noteq> []
      then [strip (transcription seg)] else [])"

definition completed_texts :: "QuickTranscriptAssembler \<Rightarrow> string list" where
  "completed_texts a =
     concat (map (\<lambda>segment_id. part_of (dict_get (transcription_segments a) segment_id))
               (segment_order a))"

text \<open>The last \<open>n\<close> elements of a list.\<close>

definition lastn :: "nat \<Rightarrow> 'a list \<Rightarrow> 'a list" where
  "lastn n xs = drop (length xs - n) xs"

text \<open>
  Transcriptions that finish one after the other: each event is the identifier of the
  segment, the text and the time the transcription took, in the order of completion.
\<close>

fun finish_all ::
  "QuickTranscriptAssembler \<Rightarrow> (string \<times> string \<times> real) list \<Rightarrow> QuickTranscriptAssembler" where
  "finish_all a [] = a"
| "finish_all a ((segment_id, text, elapsed) # events) =
     finish_all (transcribe_segment_end a segment_id text elapsed) events"

section \<open>Evaluation helpers\<close>

lemma replicate_numeral_unfold: "replicate (numeral k) x = x # replicate (pred_numeral k) x"
  by (simp add: numeral_eq_Suc)

lemma calculate_rms_unit: "calculate_rms [1] = 1" "calculate_rms [0] = 0"
  by (simp_all add: calculate_rms_def mean_def)

section \<open>Ring buffer: unavailable spans\<close>

text \<open>
  Claim C2.  In every buffer state and for every requested span, a span that starts
  before sample \<open>total_samples_written - buffer_size\<close> or ends after sample
  \<open>total_samples_written\<close> is answered with \<^verbatim>\<open>None\<close>: no data, partial or otherwise,
  and no exception.
\<close>

theorem read_segment_out_of_range_unavailable:
  assumes "start_sample_of b off < int (total_samples_written b) - int (buffer_size b)
           \<or> start_sample_of b off + duration_samples_of b dur > int (total_samples_written b)"
  shows "read_segment b off dur = Inr None"
  using assms by (auto simp: read_segment_def Let_def)

theorem read_segment_out_of_range_unavailable_witness:
  "read_segment (start_recording (init_buffer 2 2 1 7) 8) 0 1 = Inr None
   \<and> start_sample_of (start_recording (init_buffer 2 2 1 7) 8) 0
       + duration_samples_of (start_recording (init_buffer 2 2 1 7) 8) 1
     > int (total_samples_written (start_recording (init_buffer 2 2 1 7) 8))"
proof -
  let ?b = "start_recording (init_buffer 2 2 1 7) 8"
  have h: "start_sample_of ?b 0 + duration_samples_of ?b 1 > int (total_samples_written ?b)"
    by (simp add: start_sample_of_def duration_samples_of_def py_int_def
        start_recording_def init_buffer_def)
  from read_segment_out_of_range_unavailable [of ?b 0 1] h show ?thesis by blast
qed

section \<open>Ring buffer: recording duration\<close>

text \<open>
  Claim C9 says that \<^verbatim>\<open>get_recording_duration\<close> is audio time in every state.  It is
  not in the state the claim singles out: recording started, nothing written.  There the
  method falls back to the wall clock, as its own comment says.  Five seconds after
  \<^verbatim>\<open>start_recording\<close> at wall time 100, with no sample written, the result is 5 and
  not 0 / 2.
\<close>

theorem get_recording_duration_wall_clock_counterexample:
  "get_recording_duration (start_recording (init_buffer 2 2 1 100) 100) 105
     \<noteq> Inr (real (total_samples_written (start_recording (init_buffer 2 2 1 100) 100))
            / real (sample_rate (start_recording (init_buffer 2 2 1 100) 100)
                    * channels (start_recording (init_buffer 2 2 1 100) 100)))"
  by (simp add: get_recording_duration_def start_recording_def init_buffer_def)

text \<open>
  Claim C9, amended.  With a non-zero sample rate and channel count,
  \<^verbatim>\<open>get_recording_duration\<close> returns \<open>total_samples_written / (sample_rate * channels)\<close>,
  whatever the wall clock says, in every state but one: while the buffer is recording,
  has a start time and has received no sample yet, it returns the wall-clock time elapsed
  since \<^verbatim>\<open>start_recording\<close>.
\<close>

theorem get_recording_duration_audio_time:
  assumes "sample_rate b * channels b \<noteq> 0"
  shows "get_recording_duration b now =
           (if total_samples_written b = 0 \<and> is_recording b \<and> start_time_buf b \<noteq> None
               \<and> start_time_buf b \<noteq> Some 0
            then Inr (now - the (start_time_buf b))
            else Inr (real (total_samples_written b) / real (sample_rate b * channels b)))"
proof (cases "start_time_buf b")
  case None
  with assms show ?thesis
    by (simp add: get_recording_duration_def py_truediv_def)
next
  case (Some t)
  with assms show ?thesis
    by (simp add: get_recording_duration_def py_truediv_def)
qed

theorem get_recording_duration_audio_time_witness:
  "write_buf (start_recording (init_buffer 2 2 1 7) 8) [1, 1, 1] 9
     = Inr \<lparr> capacity_seconds = 2, sample_rate = 2, channels = 1, buffer_size = 4,
             buffer = [1, 1, 1, 0], write_position = 3, total_samples_written = 3,
             start_time_buf = Some 8, is_recording = True, last_write_time = 9 \<rparr>
   \<and> get_recording_duration
        \<lparr> capacity_seconds = 2, sample_rate = 2, channels = 1, buffer_size = 4,
          buffer = [1, 1, 1, 0], write_position = 3, total_samples_written = 3,
          start_time_buf = Some 8, is_recording = True, last_write_time = 9 \<rparr> 20 = Inr (3 / 2)
   \<and> get_recording_duration (start_recording (init_buffer 2 2 1 7) 8) 20 = Inr 12"
proof -
  let ?b3 = "\<lparr> capacity_seconds = 2, sample_rate = 2, channels = 1, buffer_size = 4,
          buffer = [1, 1, 1, 0], write_position = 3, total_samples_written = 3,
          start_time_buf = Some 8, is_recording = True, last_write_time = 9 \<rparr>"
  let ?b0 = "start_recording (init_buffer 2 2 1 7) 8"
  have w: "write_buf ?b0 [1, 1, 1] 9 = Inr ?b3"
    by (simp add: write_buf_def start_recording_def init_buffer_def Let_def)
  have r3: "sample_rate ?b3 * channels ?b3 \<noteq> 0" by simp
  have r0: "sample_rate ?b0 * channels ?b0 \<noteq> 0"
    by (simp add: start_recording_def init_buffer_def)
  have a: "get_recording_duration ?b3 20 = Inr (3 / 2)"
    using get_recording_duration_audio_time [OF r3, of 20] by simp
  have b: "get_recording_duration ?b0 20 = Inr 12"
    using get_recording_duration_audio_time [OF r0, of 20]
    by (simp add: start_recording_def init_buffer_def)
  from w a b show ?thesis by blast
qed

section \<open>Ring buffer: reading back what was written\<close>

text \<open>
  Claim C1, at a retained span of length zero.  Two samples are written into a buffer of
  four; the span that starts at sample 0 and has no sample in it is retained, and what
  was written into it is the empty sequence.  \<^verbatim>\<open>read_segment\<close> finds
  \<open>buffer_start = buffer_end\<close>, takes the wrap-around branch and returns the whole
  physical buffer, four samples, two of which were never written.
\<close>

theorem read_segment_empty_span_returns_whole_buffer:
  "write_buf (start_recording (init_buffer 2 2 1 7) 8) [1, 1] 9
     = Inr \<lparr> capacity_seconds = 2, sample_rate = 2, channels = 1, buffer_size = 4,
             buffer = [1, 1, 0, 0], write_position = 2, total_samples_written = 2,
             start_time_buf = Some 8, is_recording = True, last_write_time = 9 \<rparr>
   \<and> read_segment
        \<lparr> capacity_seconds = 2, sample_rate = 2, channels = 1, buffer_size = 4,
          buffer = [1, 1, 0, 0], write_position = 2, total_samples_written = 2,
          start_time_buf = Some 8, is_recording = True, last_write_time = 9 \<rparr> 0 0
     = Inr (Some [1, 1, 0, 0])"
proof -
  have z: "replicate 2 (0::real) = [0, 0]"
    by (simp add: numeral_2_eq_2)
  show ?thesis
    by (simp add: write_buf_def read_segment_def start_recording_def init_buffer_def Let_def
        start_sample_of_def duration_samples_of_def py_int_def z)
qed

section \<open>Ring buffer: spans that are not empty are read back as written\<close>

lemma ring_collision:
  fixes a b S :: nat
  assumes "a mod S = b mod S" and "a < b"
  shows "a + S \<le> b"
proof -
  from assms have "S dvd b - a"
    by (metis mod_eq_dvd_iff_nat less_imp_le_nat)
  moreover from assms(2) have "0 < b - a" by simp
  ultimately have "S \<le> b - a" by (rule dvd_imp_le)
  with assms(2) show ?thesis by linarith
qed

lemma three_part_nth:
  assumes "length A = k" and "length B = m"
  shows "(A @ B @ C) ! p =
           (if p < k then A ! p else if p < k + m then B ! (p - k) else C ! (p - (k + m)))"
  using assms by (auto simp: nth_append)

lemma simple_buffer_nth:
  fixes buf d :: "'a list"
  assumes "length buf = S" and "wp + length d \<le> S" and "p < S"
  shows "(take wp buf @ d @ drop (wp + length d) buf) ! p
         = (if wp \<le> p \<and> p < wp + length d then d ! (p - wp) else buf ! p)"
proof -
  have lA: "length (take wp buf) = wp" using assms by simp
  note n = three_part_nth [OF lA refl, of d "drop (wp + length d) buf" p]
  show ?thesis unfolding n using assms by auto
qed

lemma wrap_buffer_nth:
  fixes buf d :: "'a list"
  assumes "length buf = S" and "wp < S" and "length d \<le> S" and "S < wp + length d" and "p < S"
  shows "(drop (S - wp) d @ drop (length d - (S - wp)) (take wp buf @ take (S - wp) d)) ! p
         = (if p < wp + length d - S then d ! (S - wp + p)
            else if p < wp then buf ! p else d ! (p - wp))"
proof -
  define f where "f = S - wp"
  define k where "k = length d - f"
  have fk: "f + wp = S" "k + S = wp + length d" "k \<le> wp" "f \<le> length d" "k + f = length d"
    using assms by (simp_all add: f_def k_def)
  have e: "drop k (take wp buf @ take f d) = drop k (take wp buf) @ take f d"
    using fk assms(1) by simp
  have lA: "length (drop f d) = k" using fk by simp
  have lB: "length (drop k (take wp buf)) = wp - k" using fk assms(1) by simp
  have kw: "k + (wp - k) = wp" using fk by simp
  note n = three_part_nth [OF lA lB, of "take f d" p, unfolded kw]
  have A: "p < k \<Longrightarrow> drop f d ! p = d ! (f + p)" using fk by simp
  have B: "\<not> p < k \<Longrightarrow> p < wp \<Longrightarrow> drop k (take wp buf) ! (p - k) = buf ! p"
    using fk assms(1) by simp
  have C: "\<not> p < wp \<Longrightarrow> take f d ! (p - wp) = d ! (p - wp)"
    using fk assms(5) by simp
  have "(drop f d @ drop k (take wp buf @ take f d)) ! p
         = (if p < k then d ! (f + p) else if p < wp then buf ! p else d ! (p - wp))"
    unfolding e n using A B C by simp
  moreover have "k = wp + length d - S" using fk by simp
  ultimately show ?thesis unfolding k_def f_def by simp
qed

lemma write_buf_frame:
  assumes "write_buf b d now = Inr b'" and "is_recording b"
  shows "total_samples_written b' = total_samples_written b + length d"
    and "write_position b' = (write_position b + length d) mod buffer_size b"
    and "buffer_size b' = buffer_size b" and "is_recording b'"
    and "start_time_buf b' = start_time_buf b"
    and "sample_rate b' = sample_rate b" and "channels b' = channels b"
    and "0 < buffer_size b"
  using assms by (auto simp: write_buf_def Let_def split: if_splits)

lemma write_buf_nth:
  assumes "write_buf b d now = Inr b'" and "is_recording b"
    and "length (buffer b) = buffer_size b" and "write_position b < buffer_size b"
    and "length d \<le> buffer_size b" and "p < buffer_size b"
  shows "buffer b' ! p =
           (if write_position b + length d \<le> buffer_size b
            then (if write_position b \<le> p \<and> p < write_position b + length d
                  then d ! (p - write_position b) else buffer b ! p)
            else (if p < write_position b + length d - buffer_size b
                  then d ! (buffer_size b - write_position b + p)
                  else if p < write_position b then buffer b ! p
                  else d ! (p - write_position b)))"
    and "length (buffer b') = buffer_size b"
proof -
  let ?S = "buffer_size b" and ?wp = "write_position b" and ?n = "length d"
  show "length (buffer b') = ?S"
    using assms by (auto simp: write_buf_def Let_def split: if_splits)
  show "buffer b' ! p =
           (if ?wp + ?n \<le> ?S
            then (if ?wp \<le> p \<and> p < ?wp + ?n then d ! (p - ?wp) else buffer b ! p)
            else (if p < ?wp + ?n - ?S then d ! (?S - ?wp + p)
                  else if p < ?wp then buffer b ! p else d ! (p - ?wp)))"
  proof (cases "?wp + ?n \<le> ?S")
    case True
    with assms(1,2,4) have b': "buffer b' = take ?wp (buffer b) @ d @ drop (?wp + ?n) (buffer b)"
      by (auto simp: write_buf_def Let_def split: if_splits)
    from simple_buffer_nth [OF assms(3) True assms(6)] True show ?thesis
      unfolding b' by simp
  next
    case False
    with assms(1,2,4) have b': "buffer b' = drop (?S - ?wp) d
          @ drop (?n - (?S - ?wp)) (take ?wp (buffer b) @ take (?S - ?wp) d)"
      by (auto simp: write_buf_def Let_def split: if_splits)
    from False have "?S < ?wp + ?n" by simp
    from wrap_buffer_nth [OF assms(3,4,5) this assms(6)] False show ?thesis
      unfolding b' by simp
  qed
qed

lemma write_buf_written:
  assumes "write_buf b d now = Inr b'" and "is_recording b"
    and "length (buffer b) = buffer_size b" and "write_position b < buffer_size b"
    and "length d \<le> buffer_size b" and "j < length d"
  shows "buffer b' ! ((write_position b + j) mod buffer_size b) = d ! j"
proof -
  let ?S = "buffer_size b" and ?wp = "write_position b" and ?n = "length d"
  have p: "(?wp + j) mod ?S < ?S" using assms(4) by simp
  note n = write_buf_nth(1) [OF assms(1-5) p]
  show ?thesis
  proof (cases "?wp + j < ?S")
    case True
    then have m: "(?wp + j) mod ?S = ?wp + j" by simp
    from True assms(4,5,6) n show ?thesis unfolding m by auto
  next
    case False
    with assms(4,5,6) have m: "(?wp + j) mod ?S = ?wp + j - ?S"
      by (simp add: mod_if)
    from False assms(4,5,6) n show ?thesis unfolding m by auto
  qed
qed

lemma write_buf_untouched:
  assumes "write_buf b d now = Inr b'" and "is_recording b"
    and "length (buffer b) = buffer_size b" and "write_position b < buffer_size b"
    and "length d \<le> buffer_size b" and "p < buffer_size b"
    and "\<forall>j < length d. p \<noteq> (write_position b + j) mod buffer_size b"
  shows "buffer b' ! p = buffer b ! p"
proof -
  let ?S = "buffer_size b" and ?wp = "write_position b" and ?n = "length d"
  note n = write_buf_nth(1) [OF assms(1-6)]
  have a: "\<not> (?wp \<le> p \<and> p < ?wp + ?n)"
  proof
    assume h: "?wp \<le> p \<and> p < ?wp + ?n"
    then have "p - ?wp < ?n" by linarith
    moreover from h assms(6) have "(?wp + (p - ?wp)) mod ?S = p" by simp
    ultimately show False using assms(7) by metis
  qed
  have c: "\<not> ?wp + ?n \<le> ?S \<Longrightarrow> \<not> p < ?wp + ?n - ?S"
  proof
    assume w: "\<not> ?wp + ?n \<le> ?S" and h: "p < ?wp + ?n - ?S"
    then have j: "?S - ?wp + p < ?n" using assms(4) by linarith
    from assms(4,6) have "(?wp + (?S - ?wp + p)) mod ?S = p"
      by (simp add: mod_if)
    with j assms(7) show False by metis
  qed
  from a c assms(6) show ?thesis unfolding n by auto
qed

lemma write_buf_holds_stream:
  assumes "holds_stream b xs" and "write_buf b d now = Inr b'"
    and "length d \<le> buffer_size b"
  shows "holds_stream b' (xs @ d)"
proof -
  let ?S = "buffer_size b" and ?L = "length xs" and ?n = "length d"
  from assms(1) have S: "0 < ?S" and lb: "length (buffer b) = ?S" and rec: "is_recording b"
    and st: "truthy (start_time_buf b)" and tot: "total_samples_written b = ?L"
    and wp: "write_position b = ?L mod ?S"
    and win: "\<And>k. k < ?L \<Longrightarrow> ?L \<le> k + ?S \<Longrightarrow> buffer b ! (k mod ?S) = xs ! k"
    by (auto simp: holds_stream_def)
  from wp S have wpS: "write_position b < ?S" by simp
  note fr = write_buf_frame [OF assms(2) rec]
  note len = write_buf_nth(2) [OF assms(2) rec lb wpS assms(3)]
  have pos: "write_position b' = (?L + ?n) mod ?S"
    unfolding fr(2) wp by (simp add: mod_add_left_eq)
  have window: "buffer b' ! (k mod ?S) = (xs @ d) ! k"
    if k: "k < ?L + ?n" and r: "?L + ?n \<le> k + ?S" for k
  proof (cases "k < ?L")
    case False
    define j where "j = k - ?L"
    from False k have j: "j < ?n" "k = ?L + j" by (simp_all add: j_def)
    have "k mod ?S = (write_position b + j) mod ?S"
      unfolding wp j(2) by (simp add: mod_add_left_eq)
    with write_buf_written [OF assms(2) rec lb wpS assms(3) j(1)] False j show ?thesis
      by (simp add: nth_append)
  next
    case True
    have free: "\<forall>j < ?n. k mod ?S \<noteq> (write_position b + j) mod ?S"
    proof (intro allI impI notI)
      fix j assume j: "j < ?n" and e: "k mod ?S = (write_position b + j) mod ?S"
      have "(write_position b + j) mod ?S = (?L + j) mod ?S"
        unfolding wp by (simp add: mod_add_left_eq)
      with e have "k mod ?S = (?L + j) mod ?S" by simp
      moreover from True have "k < ?L + j" by simp
      ultimately have "k + ?S \<le> ?L + j" by (rule ring_collision)
      with j r show False by linarith
    qed
    from S have "k mod ?S < ?S" by simp
    from write_buf_untouched [OF assms(2) rec lb wpS assms(3) this free]
    have "buffer b' ! (k mod ?S) = buffer b ! (k mod ?S)" .
    also from True r have "\<dots> = xs ! k" by (intro win) simp_all
    finally show ?thesis using True by (simp add: nth_append)
  qed
  show ?thesis
    unfolding holds_stream_def
    using S len fr st tot pos window by simp
qed

lemma read_segment_holds_stream:
  assumes "holds_stream b xs"
    and "start_sample_of b off = int s" and "duration_samples_of b dur = int n"
    and "0 < n" and "s + n \<le> length xs" and "length xs \<le> s + buffer_size b"
  shows "read_segment b off dur = Inr (Some (take n (drop s xs)))"
proof -
  let ?S = "buffer_size b" and ?L = "length xs"
  from assms(1) have S: "0 < ?S" and lb: "length (buffer b) = ?S"
    and st: "truthy (start_time_buf b)" and tot: "total_samples_written b = ?L"
    and win: "\<And>k. k < ?L \<Longrightarrow> ?L \<le> k + ?S \<Longrightarrow> buffer b ! (k mod ?S) = xs ! k"
    by (auto simp: holds_stream_def)
  from assms(5,6) have nS: "n \<le> ?S" by simp
  define bs where "bs = s mod ?S"
  define be where "be = (s + n) mod ?S"
  have bsS: "bs < ?S" using S by (simp add: bs_def)
  have ib: "nat (int s mod int ?S) = bs" "nat ((int s + int n) mod int ?S) = be"
    by (simp_all add: bs_def be_def nat_mod_distrib nat_add_distrib)
  have at: "(s + j) mod ?S = (if bs + j < ?S then bs + j else bs + j - ?S)" if "j < n" for j
  proof -
    have "(s + j) mod ?S = (bs + j) mod ?S"
      unfolding bs_def by (simp add: mod_add_left_eq)
    also from that nS bsS have "\<dots> = (if bs + j < ?S then bs + j else bs + j - ?S)"
      by (simp add: mod_if)
    finally show ?thesis .
  qed
  have be_eq: "be = (if bs + n < ?S then bs + n else bs + n - ?S)"
  proof -
    have "(s + n) mod ?S = (bs + n) mod ?S"
      unfolding bs_def by (simp add: mod_add_left_eq)
    also from nS bsS have "\<dots> = (if bs + n < ?S then bs + n else bs + n - ?S)"
      by (simp add: mod_if)
    finally show ?thesis by (simp add: be_def)
  qed
  define r where "r = (if bs < be then py_slice bs be (buffer b)
                       else drop bs (buffer b) @ take be (buffer b))"
  have rd: "read_segment b off dur = Inr (Some r)"
    using st S assms(2,3,5,6) tot
    by (simp add: read_segment_def Let_def ib r_def)
  have lr: "length r = n"
    using be_eq bsS nS assms(4) lb by (auto simp: r_def py_slice_def split: if_splits)
  have nr: "r ! j = buffer b ! ((s + j) mod ?S)" if j: "j < n" for j
  proof (cases "bs + n < ?S")
    case True
    with be_eq assms(4) have "r = take n (drop bs (buffer b))"
      by (simp add: r_def py_slice_def)
    with j True lb at [OF j] show ?thesis by simp
  next
    case False
    with be_eq have be': "be = bs + n - ?S" by simp
    with nS have "\<not> bs < be" by linarith
    then have r': "r = drop bs (buffer b) @ take (bs + n - ?S) (buffer b)"
      unfolding be' by (simp add: r_def be')
    show ?thesis
    proof (cases "bs + j < ?S")
      case True
      then have "j < ?S - bs" by linarith
      then have "r ! j = drop bs (buffer b) ! j" by (simp add: r' nth_append lb)
      also have "\<dots> = buffer b ! (bs + j)" using True lb by simp
      finally show ?thesis using at [OF j] True by simp
    next
      case ge: False
      from ge have "\<not> j < ?S - bs" by linarith
      then have "r ! j = take (bs + n - ?S) (buffer b) ! (j - (?S - bs))"
        by (simp add: r' nth_append lb)
      also from ge bsS have "j - (?S - bs) = bs + j - ?S" by linarith
      also from j ge have "take (bs + n - ?S) (buffer b) ! (bs + j - ?S) = buffer b ! (bs + j - ?S)"
        by simp
      finally show ?thesis using at [OF j] ge by simp
    qed
  qed
  have "r = take n (drop s xs)"
  proof (rule nth_equalityI)
    show "length r = length (take n (drop s xs))"
      using lr assms(5) by simp
  next
    fix j assume "j < length r"
    with lr have j: "j < n" by simp
    from j assms(5,6) have "buffer b ! ((s + j) mod ?S) = xs ! (s + j)"
      by (intro win) simp_all
    with nr [OF j] j assms(5) show "r ! j = take n (drop s xs) ! j" by simp
  qed
  with rd show ?thesis by simp
qed

lemma start_recording_holds_stream:
  assumes "length (buffer b0) = buffer_size b0" and "0 < buffer_size b0" and "t0 \<noteq> 0"
  shows "holds_stream (start_recording b0 t0) []"
  using assms by (simp add: holds_stream_def start_recording_def)

lemma write_all_holds_stream:
  assumes "holds_stream b xs" and "write_all b ws = Inr b'"
    and "\<forall>w \<in> set ws. length (fst w) \<le> buffer_size b"
  shows "holds_stream b' (xs @ concat (map fst ws))"
  using assms
proof (induction ws arbitrary: b xs)
  case Nil
  then show ?case by simp
next
  case (Cons w ws)
  obtain d t where w: "w = (d, t)" by (cases w)
  with Cons.prems(2) obtain b1 where b1: "write_buf b d t = Inr b1" and rest: "write_all b1 ws = Inr b'"
    by (auto split: sum.splits)
  from Cons.prems(3) w have d: "length d \<le> buffer_size b" by simp
  from Cons.prems(1) have "is_recording b" by (simp add: holds_stream_def)
  from write_buf_frame(3) [OF b1 this] Cons.prems(3)
  have "\<forall>w \<in> set ws. length (fst w) \<le> buffer_size b1" by simp
  from Cons.IH [OF write_buf_holds_stream [OF Cons.prems(1) b1 d] rest this] w
  show ?case by simp
qed

text \<open>
  The round trip of claim C1, for spans that hold at least one sample.  After
  \<^verbatim>\<open>start_recording\<close> and any sequence of writes, none longer than the buffer, a read
  whose span of \<open>n > 0\<close> samples from sample \<open>s\<close> on has been written
  (\<open>s + n \<le> total_samples_written\<close>) and is still retained
  (\<open>total_samples_written - buffer_size \<le> s\<close>) returns the samples \<open>s\<close> to \<open>s + n - 1\<close> of
  the stream that was written, also when the span crosses the end of the physical
  buffer.
\<close>

lemma read_segment_round_trip:
  assumes "length (buffer b0) = buffer_size b0" and "0 < buffer_size b0" and "t0 \<noteq> 0"
    and "write_all (start_recording b0 t0) ws = Inr b"
    and "\<forall>w \<in> set ws. length (fst w) \<le> buffer_size b0"
    and "start_sample_of b off = int s" and "duration_samples_of b dur = int n"
    and "0 < n" and "s + n \<le> total_samples_written b"
    and "total_samples_written b \<le> s + buffer_size b"
  shows "read_segment b off dur = Inr (Some (take n (drop s (concat (map fst ws)))))"
proof -
  have "buffer_size (start_recording b0 t0) = buffer_size b0"
    by (simp add: start_recording_def)
  with assms(5) have "\<forall>w \<in> set ws. length (fst w) \<le> buffer_size (start_recording b0 t0)"
    by simp
  from write_all_holds_stream [OF start_recording_holds_stream [OF assms(1-3)] assms(4) this]
  have h: "holds_stream b (concat (map fst ws))" by simp
  then have "total_samples_written b = length (concat (map fst ws))"
    by (simp add: holds_stream_def)
  with assms(9,10) read_segment_holds_stream [OF h assms(6,7,8)] show ?thesis by simp
qed

section \<open>Volume segmenter: the analysis loop returns\<close>

lemma update_step_Continue:
  assumes "update_step b cfg T it hist speech = Continue it' hist' speech'"
  shows "current_position it < T"
    and "current_position it' = current_position it + step_size it"
    and "step_size it' = step_size it"
  using assms
  by (auto simp: update_step_def iter_next_def Let_def
      split: sum.splits if_splits option.splits prod.splits)

lemma update_step_no_raise:
  assumes "sample_rate b * channels b \<noteq> 0" and "buffer_size b \<noteq> 0"
  shows "update_step b cfg T it hist speech \<noteq> Raise e"
  using assms
  by (auto simp: update_step_def iter_next_def has_next_def get_available_duration_def
      py_truediv_def read_segment_def Let_def
      split: sum.splits if_splits option.splits prod.splits)

lemma update_loop_returns:
  assumes "0 < step_size it"
    and "sample_rate b * channels b \<noteq> 0" and "buffer_size b \<noteq> 0"
  shows "\<exists>h sp. update_loop b cfg T it hist speech = Some (Inr (h, sp))"
  using assms(1)
proof (induction "nat \<lceil>(T - current_position it) / step_size it\<rceil>"
    arbitrary: it hist speech rule: less_induct)
  case less
  show ?case
  proof (cases "update_step b cfg T it hist speech")
    case (Raise e)
    with update_step_no_raise [OF assms(2,3)] show ?thesis by blast
  next
    case Leave
    then show ?thesis by (subst update_loop.simps) simp
  next
    case (Continue it' hist' speech')
    note c = update_step_Continue [OF Continue]
    have pos: "0 < (T - current_position it) / step_size it"
      using c(1) less.prems by simp
    have "(T - current_position it') / step_size it' = (T - current_position it) / step_size it - 1"
      using c less.prems by (simp add: field_simps)
    then have "nat \<lceil>(T - current_position it') / step_size it'\<rceil>
                 < nat \<lceil>(T - current_position it) / step_size it\<rceil>"
      using pos by (simp add: ceiling_diff_one)
    moreover have "0 < step_size it'" using c less.prems by simp
    ultimately obtain h sp where "update_loop b cfg T it' hist' speech' = Some (Inr (h, sp))"
      using less.hyps by blast
    with Continue show ?thesis by (subst update_loop.simps) simp
  qed
qed

lemma update_volume_history_returns:
  assumes "0 < analysis_window (config s)"
    and "sample_rate b * channels b \<noteq> 0" and "buffer_size b \<noteq> 0"
  shows "\<exists>s1. update_volume_history s b T = Some (Inr s1)"
proof -
  let ?it = "reset_to_position (init_iterator (analysis_window (config s)) 0)
               (max (last_analysis_time s) 0)"
  have "0 < step_size ?it"
    using assms(1) by (simp add: reset_to_position_def init_iterator_def)
  from update_loop_returns [OF this assms(2,3)]
  obtain h sp where
    "update_loop b (config s) T ?it (volume_history s) (last_speech_time s) = Some (Inr (h, sp))"
    by blast
  then show ?thesis
    by (simp add: update_volume_history_def Let_def)
qed

text \<open>
  An exception of the loop is an exception of its first pass: once a window has been
  read the buffer has a size, a rate and a channel count, and no later pass can raise.
  So a call of \<^verbatim>\<open>analyze_and_segment\<close> that raises has not changed the segmenter.
\<close>

lemma update_step_Continue_ok:
  assumes "update_step b cfg T it hist speech = Continue it' hist' speech'"
  shows "sample_rate b * channels b \<noteq> 0 \<and> buffer_size b \<noteq> 0"
  using assms
  by (auto simp: update_step_def iter_next_def has_next_def get_available_duration_def
      py_truediv_def read_segment_def Let_def
      split: sum.splits if_splits option.splits prod.splits)

lemma update_loop_Inr:
  assumes "update_loop b cfg T it hist speech = Some r"
  shows "sample_rate b * channels b \<noteq> 0 \<and> buffer_size b \<noteq> 0 \<longrightarrow> (\<exists>h sp. r = Inr (h, sp))"
proof (rule update_loop.raw_induct
    [where P = "\<lambda>b cfg T it hist speech r.
       sample_rate b * channels b \<noteq> 0 \<and> buffer_size b \<noteq> 0 \<longrightarrow> (\<exists>h sp. r = Inr (h, sp))", OF _ assms])
  fix loop b cfg T it hist speech r
  assume IH: "\<And>b cfg T it hist speech r. loop b cfg T it hist speech = Some r \<Longrightarrow>
       sample_rate b * channels b \<noteq> 0 \<and> buffer_size b \<noteq> 0 \<longrightarrow> (\<exists>h sp. r = Inr (h, sp))"
    and body: "(case update_step b cfg T it hist speech of
        Raise e \<Rightarrow> Some (Inl e)
      | Leave \<Rightarrow> Some (Inr (hist, speech))
      | Continue it' hist' speech' \<Rightarrow> loop b cfg T it' hist' speech') = Some r"
  show "sample_rate b * channels b \<noteq> 0 \<and> buffer_size b \<noteq> 0 \<longrightarrow> (\<exists>h sp. r = Inr (h, sp))"
  proof
    assume ok: "sample_rate b * channels b \<noteq> 0 \<and> buffer_size b \<noteq> 0"
    show "\<exists>h sp. r = Inr (h, sp)"
    proof (cases "update_step b cfg T it hist speech")
      case (Raise e)
      with update_step_no_raise [of b cfg T it hist speech e] ok show ?thesis by blast
    next
      case Leave
      with body show ?thesis by auto
    next
      case (Continue it' hist' speech')
      with body have "loop b cfg T it' hist' speech' = Some r" by simp
      from IH [OF this] ok show ?thesis by blast
    qed
  qed
qed

lemma update_loop_raise_first:
  assumes "update_loop b cfg T it hist speech = Some (Inl e)"
  shows "update_step b cfg T it hist speech = Raise e"
proof (cases "update_step b cfg T it hist speech")
  case (Raise e')
  with assms show ?thesis by (subst (asm) update_loop.simps) simp
next
  case Leave
  with assms show ?thesis by (subst (asm) update_loop.simps) simp
next
  case (Continue it' hist' speech')
  with assms have "update_loop b cfg T it' hist' speech' = Some (Inl e)"
    by (subst (asm) update_loop.simps) simp
  from update_loop_Inr [OF this] update_step_Continue_ok [OF Continue] show ?thesis by simp
qed

lemma analyze_and_segment_raise_first:
  assumes "analyze_and_segment s b now = Some (Inl e)"
  shows "get_recording_duration b now = Inl e
         \<or> (\<exists>T. get_recording_duration b now = Inr T
                \<and> update_step b (config s) T
                     (reset_to_position (init_iterator (analysis_window (config s)) 0)
                        (max (last_analysis_time s) 0))
                     (volume_history s) (last_speech_time s) = Raise e)"
proof (cases "get_recording_duration b now")
  case (Inl e')
  with assms show ?thesis
    by (simp add: analyze_and_segment_def split: if_splits)
next
  case (Inr T)
  with assms have "update_volume_history s b T = Some (Inl e)"
    by (auto simp: analyze_and_segment_def split: if_splits option.splits sum.splits)
  then have "update_loop b (config s) T
               (reset_to_position (init_iterator (analysis_window (config s)) 0)
                  (max (last_analysis_time s) 0))
               (volume_history s) (last_speech_time s) = Some (Inl e)"
    by (auto simp: update_volume_history_def Let_def split: option.splits sum.splits prod.splits)
  from update_loop_raise_first [OF this] Inr show ?thesis by simp
qed

lemma update_volume_history_frame:
  assumes "update_volume_history s b T = Some (Inr s1)"
  shows "config s1 = config s"
    and "current_segment_start s1 = current_segment_start s"
    and "detected_segments s1 = detected_segments s"
    and "is_analyzing s1 = is_analyzing s"
    and "last_analysis_time s1 = last_analysis_time s"
  using assms
  by (auto simp: update_volume_history_def Let_def split: option.splits sum.splits prod.splits)

section \<open>Volume segmenter: the final flush\<close>

text \<open>
  Claim C6.  While analysis is active, with \<open>T\<close> the current audio time,
  \<^verbatim>\<open>flush_remaining_segment\<close> returns no segment and leaves the segmenter unchanged
  when the tail \<open>T - current_segment_start\<close> is strictly shorter than 5 seconds;
  otherwise it emits exactly one segment, with reason \<^verbatim>\<open>final_flush\<close>, from
  \<open>current_segment_start\<close> to \<open>T\<close>, of duration \<open>T - current_segment_start\<close>, and
  appends it to the detected segments.
\<close>

theorem flush_remaining_segment_final_flush:
  assumes "is_analyzing s" and "get_recording_duration b now = Inr T"
  shows "(T - current_segment_start s < 5 \<longrightarrow> flush_remaining_segment s b now = Inr (None, s))
       \<and> (\<not> T - current_segment_start s < 5 \<longrightarrow>
            (\<exists>g s'. flush_remaining_segment s b now = Inr (Some g, s')
               \<and> reason g = ''final_flush''
               \<and> start_time g = current_segment_start s
               \<and> end_time g = T
               \<and> duration g = T - current_segment_start s
               \<and> detected_segments s' = detected_segments s @ [g]))"
  using assms by (simp add: flush_remaining_segment_def Let_def finalize_segment_def)

theorem flush_remaining_segment_final_flush_witness:
  "is_analyzing (start_analysis (init_segmenter default_config))
   \<and> get_recording_duration
        \<lparr> capacity_seconds = 10, sample_rate = 1, channels = 1, buffer_size = 10,
          buffer = [1, 1, 1, 1, 1, 1, 0, 0, 0, 0], write_position = 6,
          total_samples_written = 6, start_time_buf = Some 100, is_recording = False,
          last_write_time = 106 \<rparr> 200 = Inr 6
   \<and> (\<exists>g s'. flush_remaining_segment (start_analysis (init_segmenter default_config))
        \<lparr> capacity_seconds = 10, sample_rate = 1, channels = 1, buffer_size = 10,
          buffer = [1, 1, 1, 1, 1, 1, 0, 0, 0, 0], write_position = 6,
          total_samples_written = 6, start_time_buf = Some 100, is_recording = False,
          last_write_time = 106 \<rparr> 200 = Inr (Some g, s')
        \<and> reason g = ''final_flush'' \<and> start_time g = 0 \<and> end_time g = 6 \<and> duration g = 6
        \<and> detected_segments s' = [g])
   \<and> get_recording_duration
        \<lparr> capacity_seconds = 10, sample_rate = 1, channels = 1, buffer_size = 10,
          buffer = [1, 1, 1, 1, 0, 0, 0, 0, 0, 0], write_position = 4,
          total_samples_written = 4, start_time_buf = Some 100, is_recording = False,
          last_write_time = 104 \<rparr> 200 = Inr 4
   \<and> flush_remaining_segment (start_analysis (init_segmenter default_config))
        \<lparr> capacity_seconds = 10, sample_rate = 1, channels = 1, buffer_size = 10,
          buffer = [1, 1, 1, 1, 0, 0, 0, 0, 0, 0], write_position = 4,
          total_samples_written = 4, start_time_buf = Some 100, is_recording = False,
          last_write_time = 104 \<rparr> 200
       = Inr (None, start_analysis (init_segmenter default_config))"
proof -
  let ?s = "start_analysis (init_segmenter default_config)"
  let ?b6 = "\<lparr> capacity_seconds = 10, sample_rate = 1, channels = 1, buffer_size = 10,
          buffer = [1, 1, 1, 1, 1, 1, 0, 0, 0, 0], write_position = 6,
          total_samples_written = 6, start_time_buf = Some 100, is_recording = False,
          last_write_time = 106 \<rparr>"
  let ?b4 = "\<lparr> capacity_seconds = 10, sample_rate = 1, channels = 1, buffer_size = 10,
          buffer = [1, 1, 1, 1, 0, 0, 0, 0, 0, 0], write_position = 4,
          total_samples_written = 4, start_time_buf = Some 100, is_recording = False,
          last_write_time = 104 \<rparr>"
  have a: "is_analyzing ?s"
    by (simp add: start_analysis_def)
  have c: "current_segment_start ?s = 0" "detected_segments ?s = []"
    by (simp_all add: start_analysis_def)
  have t6: "get_recording_duration ?b6 200 = Inr 6"
    by (simp add: get_recording_duration_def py_truediv_def)
  have t4: "get_recording_duration ?b4 200 = Inr 4"
    by (simp add: get_recording_duration_def py_truediv_def)
  from flush_remaining_segment_final_flush [OF a t6] flush_remaining_segment_final_flush [OF a t4]
    a t6 t4 c
  show ?thesis by simp
qed

section \<open>Volume segmenter: the order of the boundary checks\<close>

lemma check_for_segment_boundary_cases:
  fixes s :: VolumeSegmenter and T :: real
  defines "d \<equiv> T - current_segment_start s"
  shows "max_segment_duration (config s) \<le> d \<Longrightarrow>
           check_for_segment_boundary s T = Some (create_segment s T ''max_length'' 0)"
    and "d < max_segment_duration (config s) \<Longrightarrow> d < min_segment_duration (config s) \<Longrightarrow>
           check_for_segment_boundary s T = None"
    and "d < max_segment_duration (config s) \<Longrightarrow> min_segment_duration (config s) \<le> d \<Longrightarrow>
         d < target_segment_duration (config s) \<Longrightarrow>
           check_for_segment_boundary s T = None"
    and "d < max_segment_duration (config s) \<Longrightarrow> min_segment_duration (config s) \<le> d \<Longrightarrow>
         target_segment_duration (config s) \<le> d \<Longrightarrow>
           check_for_segment_boundary s T =
             (case detect_natural_pause s T of
                None \<Rightarrow> None
              | Some (e, sil) \<Rightarrow> Some (create_segment s e ''natural_pause'' sil))"
  unfolding d_def
  by (auto simp: check_for_segment_boundary_def Let_def split: option.splits)

lemma analyze_and_segment_unfold:
  assumes "is_analyzing s" and "get_recording_duration b now = Inr T"
    and "last_analysis_time s < T"
    and "update_volume_history s b T = Some (Inr s1)"
  shows "analyze_and_segment s b now =
           (case check_for_segment_boundary s1 T of
              Some g \<Rightarrow> Some (Inr ([g], (finalize_segment s1 g)\<lparr> last_analysis_time := T \<rparr>))
            | None \<Rightarrow> Some (Inr ([], s1\<lparr> last_analysis_time := T \<rparr>)))"
  using assms by (simp add: analyze_and_segment_def)

lemma analyze_and_segment_returned:
  assumes "analyze_and_segment s b now = Some (Inr (segs, s'))"
    and "is_analyzing s" and "get_recording_duration b now = Inr T"
    and "last_analysis_time s < T"
  obtains s1 where "update_volume_history s b T = Some (Inr s1)"
    and "check_for_segment_boundary s1 T = None \<Longrightarrow> segs = [] \<and> s' = s1\<lparr> last_analysis_time := T \<rparr>"
    and "\<And>g. check_for_segment_boundary s1 T = Some g \<Longrightarrow>
            segs = [g] \<and> s' = (finalize_segment s1 g)\<lparr> last_analysis_time := T \<rparr>"
  using assms
  by (auto simp: analyze_and_segment_def split: option.splits sum.splits)

text \<open>
  Claim C4.  Take a call of \<^verbatim>\<open>analyze_and_segment\<close> that reaches the boundary check:
  analysis is active and the audio time \<open>T\<close> has advanced.  With
  \<open>d = T - current_segment_start\<close>: if \<open>d\<close> is at least \<open>max_segment_duration\<close> exactly one
  segment is emitted, with reason \<^verbatim>\<open>max_length\<close>, ending at \<open>T\<close>; else if \<open>d\<close> is below
  \<open>min_segment_duration\<close> nothing is emitted; else a segment can only be emitted when \<open>d\<close>
  is at least \<open>target_segment_duration\<close>: then the natural-pause search is made on the
  updated history and its result, if any, is emitted with reason \<^verbatim>\<open>natural_pause\<close>.
  At most one segment is emitted per call; it starts at the current segment start and
  the next segment starts at its end.  The call returns (without exception) whenever the
  analysis window is positive and the buffer has a non-zero rate, channel count and size.
\<close>

theorem analyze_and_segment_boundary_priority:
  assumes "is_analyzing s" and "get_recording_duration b now = Inr T"
    and "last_analysis_time s < T"
  shows "(\<forall>segs s'. analyze_and_segment s b now = Some (Inr (segs, s')) \<longrightarrow>
            (max_segment_duration (config s) \<le> T - current_segment_start s \<longrightarrow>
               (\<exists>g. segs = [g] \<and> reason g = ''max_length''
                    \<and> start_time g = current_segment_start s \<and> end_time g = T))
          \<and> (T - current_segment_start s < max_segment_duration (config s)
               \<and> T - current_segment_start s < min_segment_duration (config s) \<longrightarrow> segs = [])
          \<and> (T - current_segment_start s < max_segment_duration (config s)
               \<and> min_segment_duration (config s) \<le> T - current_segment_start s
               \<and> T - current_segment_start s < target_segment_duration (config s) \<longrightarrow> segs = [])
          \<and> (T - current_segment_start s < max_segment_duration (config s)
               \<and> min_segment_duration (config s) \<le> T - current_segment_start s
               \<and> target_segment_duration (config s) \<le> T - current_segment_start s \<longrightarrow>
               segs = [] \<or> (\<exists>g. segs = [g] \<and> reason g = ''natural_pause''
                                \<and> start_time g = current_segment_start s))
          \<and> (T - current_segment_start s < max_segment_duration (config s)
               \<and> min_segment_duration (config s) \<le> T - current_segment_start s
               \<and> target_segment_duration (config s) \<le> T - current_segment_start s \<longrightarrow>
               (\<exists>s1. update_volume_history s b T = Some (Inr s1)
                  \<and> segs = (case detect_natural_pause s1 T of
                              None \<Rightarrow> []
                            | Some (e, sil) \<Rightarrow> [create_segment s1 e ''natural_pause'' sil])))
          \<and> (\<forall>g \<in> set segs. reason g = ''natural_pause'' \<longrightarrow>
                 T - current_segment_start s < max_segment_duration (config s)
                 \<and> min_segment_duration (config s) \<le> T - current_segment_start s
                 \<and> target_segment_duration (config s) \<le> T - current_segment_start s)
          \<and> (segs = [] \<longrightarrow> current_segment_start s' = current_segment_start s)
          \<and> (\<forall>g. segs = [g] \<longrightarrow> current_segment_start s' = end_time g)
          \<and> length segs \<le> 1
          \<and> detected_segments s' = detected_segments s @ segs)
       \<and> (0 < analysis_window (config s) \<and> sample_rate b * channels b \<noteq> 0 \<and> buffer_size b \<noteq> 0 \<longrightarrow>
            (\<exists>segs s'. analyze_and_segment s b now = Some (Inr (segs, s'))))"
proof (intro conjI allI impI)
  fix segs s'
  assume r: "analyze_and_segment s b now = Some (Inr (segs, s'))"
  from analyze_and_segment_returned [OF r assms]
  obtain s1 where u: "update_volume_history s b T = Some (Inr s1)"
    and n: "check_for_segment_boundary s1 T = None \<Longrightarrow>
              segs = [] \<and> s' = s1\<lparr> last_analysis_time := T \<rparr>"
    and e: "\<And>g. check_for_segment_boundary s1 T = Some g \<Longrightarrow>
              segs = [g] \<and> s' = (finalize_segment s1 g)\<lparr> last_analysis_time := T \<rparr>"
    by blast
  note f = update_volume_history_frame [OF u]
  note c = check_for_segment_boundary_cases [where s = s1 and T = T, unfolded f]
  {
    assume "max_segment_duration (config s) \<le> T - current_segment_start s"
    from c(1) [OF this] e [of "create_segment s1 T ''max_length'' 0"]
    show "\<exists>g. segs = [g] \<and> reason g = ''max_length''
               \<and> start_time g = current_segment_start s \<and> end_time g = T"
      by (simp add: create_segment_def f)
  next
    assume "T - current_segment_start s < max_segment_duration (config s)
             \<and> T - current_segment_start s < min_segment_duration (config s)"
    with c(2) n show "segs = []" by simp
  next
    assume "T - current_segment_start s < max_segment_duration (config s)
             \<and> min_segment_duration (config s) \<le> T - current_segment_start s
             \<and> T - current_segment_start s < target_segment_duration (config s)"
    with c(3) n show "segs = []" by simp
  next
    assume a: "T - current_segment_start s < max_segment_duration (config s)
             \<and> min_segment_duration (config s) \<le> T - current_segment_start s
             \<and> target_segment_duration (config s) \<le> T - current_segment_start s"
    show "segs = [] \<or> (\<exists>g. segs = [g] \<and> reason g = ''natural_pause''
                              \<and> start_time g = current_segment_start s)"
    proof (cases "detect_natural_pause s1 T")
      case None
      with c(4) a n show ?thesis by simp
    next
      case (Some p)
      obtain en sil where p: "p = (en, sil)" by (cases p)
      with Some c(4) a
      have "check_for_segment_boundary s1 T = Some (create_segment s1 en ''natural_pause'' sil)"
        by simp
      from e [OF this] show ?thesis by (simp add: create_segment_def f)
    qed
  next
    assume a: "T - current_segment_start s < max_segment_duration (config s)
             \<and> min_segment_duration (config s) \<le> T - current_segment_start s
             \<and> target_segment_duration (config s) \<le> T - current_segment_start s"
    have "segs = (case detect_natural_pause s1 T of
                    None \<Rightarrow> []
                  | Some (e, sil) \<Rightarrow> [create_segment s1 e ''natural_pause'' sil])"
    proof (cases "detect_natural_pause s1 T")
      case None
      with c(4) a n show ?thesis by simp
    next
      case (Some p)
      obtain en sil where p: "p = (en, sil)" by (cases p)
      with Some c(4) a
      have "check_for_segment_boundary s1 T = Some (create_segment s1 en ''natural_pause'' sil)"
        by simp
      from e [OF this] Some p show ?thesis by simp
    qed
    with u show "\<exists>s1. update_volume_history s b T = Some (Inr s1)
                  \<and> segs = (case detect_natural_pause s1 T of
                              None \<Rightarrow> []
                            | Some (e, sil) \<Rightarrow> [create_segment s1 e ''natural_pause'' sil])"
      by blast
  next
    show "\<forall>g \<in> set segs. reason g = ''natural_pause'' \<longrightarrow>
                 T - current_segment_start s < max_segment_duration (config s)
                 \<and> min_segment_duration (config s) \<le> T - current_segment_start s
                 \<and> target_segment_duration (config s) \<le> T - current_segment_start s"
    proof (cases "check_for_segment_boundary s1 T")
      case None
      with n show ?thesis by simp
    next
      case (Some g)
      with e have segs: "segs = [g]" by simp
      from Some show ?thesis
        unfolding segs
        by (auto simp: check_for_segment_boundary_def Let_def create_segment_def f
            split: if_splits option.splits)
    qed
  next
    assume "segs = []"
    with e n show "current_segment_start s' = current_segment_start s"
      by (cases "check_for_segment_boundary s1 T") (auto simp: f)
  next
    fix g assume "segs = [g]"
    with e n show "current_segment_start s' = end_time g"
      by (cases "check_for_segment_boundary s1 T") (auto simp: finalize_segment_def)
  next
    from e n show "length segs \<le> 1"
      by (cases "check_for_segment_boundary s1 T") auto
  next
    from e n show "detected_segments s' = detected_segments s @ segs"
      by (cases "check_for_segment_boundary s1 T") (auto simp: finalize_segment_def f)
  }
next
  assume "0 < analysis_window (config s) \<and> sample_rate b * channels b \<noteq> 0 \<and> buffer_size b \<noteq> 0"
  then obtain s1 where "update_volume_history s b T = Some (Inr s1)"
    using update_volume_history_returns [of s b T] by blast
  from analyze_and_segment_unfold [OF assms this]
  show "\<exists>segs s'. analyze_and_segment s b now = Some (Inr (segs, s'))"
    by (cases "check_for_segment_boundary s1 T") simp_all
qed

theorem analyze_and_segment_boundary_priority_witness:
  "is_analyzing (start_analysis (init_segmenter default_config))
   \<and> get_recording_duration
        \<lparr> capacity_seconds = 10, sample_rate = 1, channels = 1, buffer_size = 10,
          buffer = [1, 1, 1, 1, 1, 1, 1, 1, 1, 1], write_position = 0,
          total_samples_written = 90, start_time_buf = Some 100, is_recording = True,
          last_write_time = 190 \<rparr> 200 = Inr 90
   \<and> last_analysis_time (start_analysis (init_segmenter default_config)) < 90
   \<and> (\<exists>g s'. analyze_and_segment (start_analysis (init_segmenter default_config))
        \<lparr> capacity_seconds = 10, sample_rate = 1, channels = 1, buffer_size = 10,
          buffer = [1, 1, 1, 1, 1, 1, 1, 1, 1, 1], write_position = 0,
          total_samples_written = 90, start_time_buf = Some 100, is_recording = True,
          last_write_time = 190 \<rparr> 200 = Some (Inr ([g], s'))
        \<and> reason g = ''max_length'' \<and> start_time g = 0 \<and> end_time g = 90
        \<and> current_segment_start s' = 90)"
proof -
  let ?s = "start_analysis (init_segmenter default_config)"
  let ?b = "\<lparr> capacity_seconds = 10, sample_rate = 1, channels = 1, buffer_size = 10,
          buffer = [1, 1, 1, 1, 1, 1, 1, 1, 1, 1], write_position = 0,
          total_samples_written = 90, start_time_buf = Some 100, is_recording = True,
          last_write_time = 190 \<rparr>"
  have a: "is_analyzing ?s" by (simp add: start_analysis_def)
  have t: "get_recording_duration ?b 200 = Inr 90"
    by (simp add: get_recording_duration_def py_truediv_def)
  have l: "last_analysis_time ?s < 90" by (simp add: start_analysis_def)
  have k: "current_segment_start ?s = 0" "config ?s = default_config"
    by (simp_all add: start_analysis_def init_segmenter_def)
  note p = analyze_and_segment_boundary_priority [OF a t l]
  have c1: "0 < analysis_window (config ?s) \<and> sample_rate ?b * channels ?b \<noteq> 0 \<and> buffer_size ?b \<noteq> 0"
    by (simp add: start_analysis_def init_segmenter_def default_config_def)
  from p [THEN conjunct2, rule_format, OF c1]
  obtain segs s' where r: "analyze_and_segment ?s ?b 200 = Some (Inr (segs, s'))"
    by blast
  note q = p [THEN conjunct1, rule_format, OF r]
  have m: "max_segment_duration (config ?s) \<le> 90 - current_segment_start ?s"
    by (simp add: start_analysis_def init_segmenter_def default_config_def)
  from q [THEN conjunct1, rule_format, OF m]
  obtain g where g: "segs = [g]" "reason g = ''max_length''"
    "start_time g = current_segment_start ?s" "end_time g = 90"
    by blast
  from q g(1) have e: "current_segment_start s' = end_time g" by blast
  from r g e k(1) have "analyze_and_segment ?s ?b 200 = Some (Inr ([g], s'))
        \<and> reason g = ''max_length'' \<and> start_time g = 0 \<and> end_time g = 90
        \<and> current_segment_start s' = 90"
    by simp
  then have "\<exists>g s'. analyze_and_segment ?s ?b 200 = Some (Inr ([g], s'))
        \<and> reason g = ''max_length'' \<and> start_time g = 0 \<and> end_time g = 90
        \<and> current_segment_start s' = 90"
    by blast
  with a t l show ?thesis by blast
qed

section \<open>Volume segmenter: natural pauses\<close>

lemma scan_silence_started:
  "scan_silence silent ws (Some a) =
     (Some a, case dropWhile (\<lambda>(t, v). silent v) ws of [] \<Rightarrow> None | (e, v1) # rest' \<Rightarrow> Some e)"
  by (induction ws) auto

lemma scan_silence_fresh:
  "scan_silence silent ws None =
     (case dropWhile (\<lambda>(t, v). \<not> silent v) ws of
        [] \<Rightarrow> (None, None)
      | (a, v0) # rest \<Rightarrow> scan_silence silent rest (Some a))"
  by (induction ws) auto

lemma run_end_cases:
  fixes xs :: "(real \<times> real) list"
  shows "(case (case xs of [] \<Rightarrow> None | (e, v1) # r \<Rightarrow> Some e) of
            None \<Rightarrow> Some (a, T) | Some e \<Rightarrow> Some (a, e))
         = Some (a, case xs of [] \<Rightarrow> T | (e, v1) # r \<Rightarrow> e)"
  by (cases xs) auto

lemma scan_silence_first_silent_run:
  "(case scan_silence silent ws None of
      (Some a, Some e) \<Rightarrow> Some (a, e)
    | (Some a, None) \<Rightarrow> Some (a, T)
    | (None, x) \<Rightarrow> None) = first_silent_run silent ws T"
proof (cases "dropWhile (\<lambda>(t, v). \<not> silent v) ws")
  case Nil
  show ?thesis
    unfolding scan_silence_fresh first_silent_run_def Nil by simp
next
  case outer: (Cons p rest)
  obtain a v0 where p: "p = (a, v0)" by (cases p)
  show ?thesis
    unfolding scan_silence_fresh first_silent_run_def outer p scan_silence_started
    using run_end_cases [where xs = "dropWhile (\<lambda>(t, v). silent v) rest" and a = a and T = T]
    by simp
qed

lemma recent_baseline:
  "volumes_in_range (recent_windows s T)
     (max (current_segment_start s) (T - lookback_window (config s))) (T - 2)
   = baseline_samples s T"
proof -
  have "filter (\<lambda>(t, v). max (current_segment_start s) (T - lookback_window (config s)) \<le> t
                           \<and> t \<le> T - 2) (recent_windows s T)
        = filter (\<lambda>(t, v). current_segment_start s \<le> t \<and> t \<le> T - 2) (recent_windows s T)"
    unfolding recent_windows_def by (rule filter_cong) auto
  then show ?thesis by (simp add: volumes_in_range_def baseline_samples_def)
qed

lemma detect_natural_pause_eq:
  "detect_natural_pause s T =
     (if length (recent_windows s T) < 3 then None else qualifying_pause s T)"
proof -
  have short: "length (volume_history s) < 3 \<Longrightarrow> length (recent_windows s T) < 3"
    unfolding recent_windows_def
    using length_filter_le [of "\<lambda>(t, v). T - lookback_window (config s) \<le> t" "volume_history s"]
    by linarith
  have rw: "filter (\<lambda>(t, v). T - lookback_window (config s) \<le> t) (volume_history s)
              = recent_windows s T"
    by (simp add: recent_windows_def)
  have sil: "(\<lambda>volume. volume < silence_threshold (config s)
                 \<or> volume < mean (baseline_samples s T) * volume_drop_threshold (config s))
             = is_silent_window (config s) (mean (baseline_samples s T))"
    by (simp add: is_silent_window_def fun_eq_iff)
  show ?thesis
  proof (cases "length (recent_windows s T) < 3")
    case True
    then show ?thesis
      by (simp add: detect_natural_pause_def Let_def rw)
  next
    case False
    with short have long: "\<not> length (volume_history s) < 3" by blast
    show ?thesis
    proof (cases "baseline_samples s T = []")
      case True
      with False long show ?thesis
        by (simp add: detect_natural_pause_def Let_def rw recent_baseline qualifying_pause_def)
    next
      case nonempty: False
      let ?sil = "is_silent_window (config s) (mean (baseline_samples s T))"
      note run = scan_silence_first_silent_run [where silent = ?sil and ws = "recent_windows s T" and T = T, symmetric]
      from False long nonempty show ?thesis
        by (simp add: detect_natural_pause_def Let_def rw recent_baseline qualifying_pause_def
            sil run split: prod.splits option.splits)
    qed
  qed
qed

text \<open>
  Claim C5 says that the first silent run of the lookback window qualifies exactly when
  it is long enough.  The code first asks for three volume samples in the lookback
  window.  Here the window holds two, at 46.5 s and 48 s (polls that come less than one
  analysis window apart add none, so such histories arise): the baseline is the mean of
  1 and 0, the window at 48 s is silent and the silence is still going on at
  \<open>T = 50\<close>, a run of 2 s against a minimum of 0.5 s.  The claim's rule reports the
  pause \<open>(50, 2)\<close>; \<^verbatim>\<open>_detect_natural_pause\<close> reports none.
\<close>

theorem detect_natural_pause_two_windows_counterexample:
  "detect_natural_pause
     \<lparr> config = default_config, current_segment_start = 0, last_analysis_time = 99 / 2,
       last_speech_time = 93 / 2, volume_history = [(93 / 2, 1), (48, 0)],
       detected_segments = [], is_analyzing = True \<rparr> 50 = None
   \<and> qualifying_pause
     \<lparr> config = default_config, current_segment_start = 0, last_analysis_time = 99 / 2,
       last_speech_time = 93 / 2, volume_history = [(93 / 2, 1), (48, 0)],
       detected_segments = [], is_analyzing = True \<rparr> 50 = Some (50, 2)"
  by (simp add: detect_natural_pause_def qualifying_pause_def baseline_samples_def
      recent_windows_def first_silent_run_def is_silent_window_def mean_def default_config_def)

text \<open>
  Claim C5, amended.  \<^verbatim>\<open>_detect_natural_pause\<close> reports no pause when the trailing
  lookback window of the history holds fewer than three volume samples.  Otherwise it
  reports exactly the pause of the claim: with the baseline the mean RMS of the samples
  of the lookback window between \<open>current_segment_start\<close> and \<open>T - 2\<close> (none: no pause),
  and a window silent iff its RMS is below \<open>silence_threshold\<close> or below
  \<open>baseline * volume_drop_threshold\<close>, the first maximal run of silent windows, ending
  at the next window that is not silent or at \<open>T\<close>, qualifies iff it lasts at least
  \<open>min_pause_duration\<close>.  A \<^verbatim>\<open>natural_pause\<close> segment ends at the end of that run and
  carries its length as silence duration.
\<close>

theorem detect_natural_pause_qualifying_pause:
  "detect_natural_pause s T =
     (if length (recent_windows s T) < 3 then None else qualifying_pause s T)
   \<and> (\<forall>g. check_for_segment_boundary s T = Some g \<and> reason g = ''natural_pause'' \<longrightarrow>
          (\<exists>sil. detect_natural_pause s T = Some (end_time g, sil) \<and> silence_duration g = sil))"
proof (intro conjI allI impI)
  show "detect_natural_pause s T =
     (if length (recent_windows s T) < 3 then None else qualifying_pause s T)"
    by (rule detect_natural_pause_eq)
next
  fix g
  assume "check_for_segment_boundary s T = Some g \<and> reason g = ''natural_pause''"
  then show "\<exists>sil. detect_natural_pause s T = Some (end_time g, sil) \<and> silence_duration g = sil"
    by (auto simp: check_for_segment_boundary_def Let_def create_segment_def
        split: if_splits option.splits)
qed

theorem detect_natural_pause_qualifying_pause_witness:
  "check_for_segment_boundary
     \<lparr> config = default_config, current_segment_start = 0, last_analysis_time = 49,
       last_speech_time = 49, volume_history = [(46, 1), (47, 1), (48, 0), (49, 1)],
       detected_segments = [], is_analyzing = True \<rparr> 50
     = Some (create_segment
         \<lparr> config = default_config, current_segment_start = 0, last_analysis_time = 49,
           last_speech_time = 49, volume_history = [(46, 1), (47, 1), (48, 0), (49, 1)],
           detected_segments = [], is_analyzing = True \<rparr> 49 ''natural_pause'' 1)
   \<and> detect_natural_pause
     \<lparr> config = default_config, current_segment_start = 0, last_analysis_time = 49,
       last_speech_time = 49, volume_history = [(46, 1), (47, 1), (48, 0), (49, 1)],
       detected_segments = [], is_analyzing = True \<rparr> 50 = Some (49, 1)"
proof -
  let ?s = "\<lparr> config = default_config, current_segment_start = 0, last_analysis_time = 49,
       last_speech_time = 49, volume_history = [(46, 1), (47, 1), (48, 0), (49, 1)],
       detected_segments = [], is_analyzing = True \<rparr>"
  let ?g = "create_segment ?s 49 ''natural_pause'' 1"
  have q: "qualifying_pause ?s 50 = Some (49, 1)"
    by (simp add: qualifying_pause_def baseline_samples_def recent_windows_def
        first_silent_run_def is_silent_window_def mean_def default_config_def)
  have n: "\<not> length (recent_windows ?s 50) < 3"
    by (simp add: recent_windows_def default_config_def)
  from detect_natural_pause_qualifying_pause [of ?s 50, THEN conjunct1] q n
  have d: "detect_natural_pause ?s 50 = Some (49, 1)" by simp
  then have c: "check_for_segment_boundary ?s 50 = Some ?g"
    by (simp add: check_for_segment_boundary_def default_config_def)
  have r: "reason ?g = ''natural_pause''"
    by (simp add: create_segment_def)
  from detect_natural_pause_qualifying_pause [of ?s 50, THEN conjunct2, rule_format, of ?g] c r
  obtain sil where "detect_natural_pause ?s 50 = Some (end_time ?g, sil)" by blast
  with c d show ?thesis by simp
qed

section \<open>Volume segmenter: the emitted segments as a partition\<close>

lemma partition_from_append:
  "partition_from t (xs @ ys) =
     (partition_from t xs \<and> partition_from (if xs = [] then t else end_time (last xs)) ys)"
  by (induction xs arbitrary: t) auto

lemma first_silent_run_start:
  assumes "first_silent_run silent ws T = Some (a, e)"
  shows "a \<in> fst ` set ws"
proof (cases "dropWhile (\<lambda>(t, v). \<not> silent v) ws")
  case Nil
  with assms show ?thesis by (simp add: first_silent_run_def)
next
  case (Cons p rest)
  then have "p \<in> set ws"
    by (metis list.set_intros(1) set_dropWhileD)
  moreover from assms Cons have "fst p = a"
    by (cases p) (simp add: first_silent_run_def)
  ultimately show ?thesis by force
qed

lemma detect_natural_pause_end:
  assumes "detect_natural_pause s T = Some (e, sil)"
  shows "\<exists>a. T - lookback_window (config s) \<le> a \<and> min_pause_duration (config s) \<le> e - a"
proof -
  from assms have q: "qualifying_pause s T = Some (e, sil)"
    by (simp add: detect_natural_pause_eq split: if_splits)
  then obtain a e' where r: "first_silent_run (is_silent_window (config s) (mean (baseline_samples s T)))
               (recent_windows s T) T = Some (a, e')"
    and m: "min_pause_duration (config s) \<le> e' - a" and e: "e = e'"
    by (auto simp: qualifying_pause_def split: if_splits option.splits)
  from first_silent_run_start [OF r] have "T - lookback_window (config s) \<le> a"
    by (auto simp: recent_windows_def)
  with m e show ?thesis by blast
qed

lemma check_for_segment_boundary_segment:
  assumes "check_for_segment_boundary s T = Some g"
    and "0 < max_segment_duration (config s)"
    and "lookback_window (config s) \<le> target_segment_duration (config s)"
    and "0 < min_pause_duration (config s)"
  shows "start_time g = current_segment_start s \<and> start_time g < end_time g
         \<and> duration g = end_time g - start_time g"
proof (cases "max_segment_duration (config s) \<le> T - current_segment_start s")
  case True
  with assms(1) have "g = create_segment s T ''max_length'' 0"
    by (simp add: check_for_segment_boundary_def Let_def)
  with True assms(2) show ?thesis by (simp add: create_segment_def)
next
  case False
  with assms(1) obtain e sil where d: "detect_natural_pause s T = Some (e, sil)"
    and g: "g = create_segment s e ''natural_pause'' sil"
    and t: "target_segment_duration (config s) \<le> T - current_segment_start s"
    by (auto simp: check_for_segment_boundary_def Let_def split: if_splits option.splits)
  from detect_natural_pause_end [OF d] obtain a
    where "T - lookback_window (config s) \<le> a" "min_pause_duration (config s) \<le> e - a"
    by blast
  with t assms(3,4) have "current_segment_start s < e" by linarith
  with g show ?thesis by (simp add: create_segment_def)
qed

lemma analyze_and_segment_partition:
  assumes "analyze_and_segment s b now = Some (Inr (segs, s'))"
    and "0 < max_segment_duration (config s)"
    and "lookback_window (config s) \<le> target_segment_duration (config s)"
    and "0 < min_pause_duration (config s)"
  shows "config s' = config s \<and> detected_segments s' = detected_segments s @ segs
         \<and> partition_from (current_segment_start s) segs
         \<and> current_segment_start s' = (if segs = [] then current_segment_start s else end_time (last segs))"
proof (cases "is_analyzing s")
  case False
  with assms(1) show ?thesis by (simp add: analyze_and_segment_def)
next
  case True
  with assms(1) obtain T where T: "get_recording_duration b now = Inr T"
    by (auto simp: analyze_and_segment_def split: sum.splits)
  show ?thesis
  proof (cases "T \<le> last_analysis_time s")
    case True
    with assms(1) T \<open>is_analyzing s\<close> show ?thesis by (simp add: analyze_and_segment_def)
  next
    case False
    then have adv: "last_analysis_time s < T" by simp
    from analyze_and_segment_returned [OF assms(1) \<open>is_analyzing s\<close> T adv]
    obtain s1 where u: "update_volume_history s b T = Some (Inr s1)"
      and n: "check_for_segment_boundary s1 T = None \<Longrightarrow>
                segs = [] \<and> s' = s1\<lparr> last_analysis_time := T \<rparr>"
      and e: "\<And>g. check_for_segment_boundary s1 T = Some g \<Longrightarrow>
                segs = [g] \<and> s' = (finalize_segment s1 g)\<lparr> last_analysis_time := T \<rparr>"
      by blast
    note f = update_volume_history_frame [OF u]
    show ?thesis
    proof (cases "check_for_segment_boundary s1 T")
      case None
      with n show ?thesis by (simp add: f)
    next
      case (Some g)
      from check_for_segment_boundary_segment [OF Some] assms(2-4)
      have "start_time g = current_segment_start s \<and> start_time g < end_time g
            \<and> duration g = end_time g - start_time g"
        by (simp add: f)
      with e [OF Some] show ?thesis by (simp add: finalize_segment_def f)
    qed
  qed
qed

lemma flush_remaining_segment_partition:
  assumes "flush_remaining_segment s b now = Inr (g, s')"
  shows "config s' = config s
         \<and> detected_segments s' = detected_segments s @ (case g of None \<Rightarrow> [] | Some x \<Rightarrow> [x])
         \<and> partition_from (current_segment_start s) (case g of None \<Rightarrow> [] | Some x \<Rightarrow> [x])
         \<and> current_segment_start s' = (case g of None \<Rightarrow> current_segment_start s | Some x \<Rightarrow> end_time x)"
  using assms
  by (auto simp: flush_remaining_segment_def Let_def finalize_segment_def
      split: if_splits sum.splits)

lemma run_calls_partition:
  assumes "run_calls s calls = Some (emitted, s')"
    and "0 < max_segment_duration (config s)"
    and "lookback_window (config s) \<le> target_segment_duration (config s)"
    and "0 < min_pause_duration (config s)"
  shows "partition_from (current_segment_start s) emitted
         \<and> detected_segments s' = detected_segments s @ emitted"
  using assms
proof (induction calls arbitrary: s emitted)
  case Nil
  then show ?case by simp
next
  case (Cons c calls)
  show ?case
  proof (cases c)
    case (Analyze b now)
    show ?thesis
    proof (cases "analyze_and_segment s b now")
      case None
      with Cons.prems(1) Analyze show ?thesis by simp
    next
      case (Some r)
      show ?thesis
      proof (cases r)
        case (Inl e)
        with Some Cons.prems Analyze Cons.IH [of s emitted] show ?thesis by simp
      next
        case (Inr p)
        obtain segs s1 where p: "p = (segs, s1)" by (cases p)
        with Some Inr have a: "analyze_and_segment s b now = Some (Inr (segs, s1))" by simp
        with Cons.prems(1) Analyze obtain rest
          where rest: "run_calls s1 calls = Some (rest, s')" and em: "emitted = segs @ rest"
          by (auto split: option.splits)
        note st = analyze_and_segment_partition [OF a Cons.prems(2-4)]
        from Cons.IH [OF rest] Cons.prems(2-4) st
        have "partition_from (current_segment_start s1) rest
              \<and> detected_segments s' = detected_segments s1 @ rest"
          by simp
        with st em show ?thesis by (simp add: partition_from_append)
      qed
    qed
  next
    case (Flush b now)
    show ?thesis
    proof (cases "flush_remaining_segment s b now")
      case (Inl e)
      with Cons.prems Flush Cons.IH [of s emitted] show ?thesis by simp
    next
      case (Inr p)
      obtain g s1 where p: "p = (g, s1)" by (cases p)
      with Inr have a: "flush_remaining_segment s b now = Inr (g, s1)" by simp
      with Cons.prems(1) Flush obtain rest
        where rest: "run_calls s1 calls = Some (rest, s')"
          and em: "emitted = (case g of None \<Rightarrow> [] | Some x \<Rightarrow> [x]) @ rest"
        by (auto split: option.splits)
      note st = flush_remaining_segment_partition [OF a]
      from Cons.IH [OF rest] Cons.prems(2-4) st
      have "partition_from (current_segment_start s1) rest
            \<and> detected_segments s' = detected_segments s1 @ rest"
        by simp
      with st em show ?thesis
        by (cases g) (simp_all add: partition_from_append)
    qed
  qed
qed

lemmas segmenter_eval =
  update_step_def has_next_def iter_next_def get_available_duration_def py_truediv_def
  read_segment_def start_sample_of_def duration_samples_of_def py_int_def Let_def py_slice_def
  calculate_rms_unit get_recording_duration_def update_volume_history_def reset_to_position_def
  init_iterator_def check_for_segment_boundary_def detect_natural_pause_def create_segment_def
  finalize_segment_def volumes_in_range_def get_average_volume_in_range_def
  get_peak_volume_in_range_def mean_def np_max_def analyze_and_segment_def
  flush_remaining_segment_def start_analysis_def init_segmenter_def update_loop.simps

text \<open>
  The pause search of \<^verbatim>\<open>_detect_natural_pause\<close> scans every window of the lookback
  window; only its baseline is clamped to the start of the current segment.  Where the
  lookback window is no longer than the target segment duration, a pause can only be
  searched once the current segment is at least as long as the lookback window, so the
  pause found ends inside the current segment.  For such a configuration, with a positive
  maximum segment duration and a positive minimum pause (the defaults are such), the
  segments emitted after \<^verbatim>\<open>start_analysis\<close> by any sequence of calls of
  \<^verbatim>\<open>analyze_and_segment\<close> and \<^verbatim>\<open>flush_remaining_segment\<close> form a contiguous
  partition of audio time, and they are exactly the detected segments.
\<close>

lemma short_lookback_partition:
  assumes "0 < max_segment_duration (config s0)"
    and "lookback_window (config s0) \<le> target_segment_duration (config s0)"
    and "0 < min_pause_duration (config s0)"
    and "run_calls (start_analysis s0) calls = Some (emitted, s')"
  shows "partition_from 0 emitted \<and> detected_segments s' = emitted"
proof -
  have c: "config (start_analysis s0) = config s0"
    "current_segment_start (start_analysis s0) = 0"
    "detected_segments (start_analysis s0) = []"
    by (simp_all add: start_analysis_def)
  from run_calls_partition [OF assms(4)] assms(1-3) c show ?thesis by simp
qed

text \<open>
  A run of that kind, at one sample per second, with min = 1 s, target = 5 s, max = 10 s
  and the default lookback of 5 s: the call at \<open>T = 6\<close> finds the silent window at 4 s,
  which ended at 5 s, and emits the \<^verbatim>\<open>natural_pause\<close> segment from 0 to 5; the flush
  at \<open>T = 11\<close> emits the rest, from 5 to 11.
\<close>

lemma short_lookback_partition_run:
  "run_calls (start_analysis (init_segmenter
         (default_config\<lparr> min_segment_duration := 1, target_segment_duration := 5,
                         max_segment_duration := 10 \<rparr>)))
       [Analyze \<lparr> capacity_seconds = 12, sample_rate = 1, channels = 1, buffer_size = 12,
            buffer = [1, 1, 1, 1, 0, 1, 0, 0, 0, 0, 0, 0], write_position = 6,
            total_samples_written = 6, start_time_buf = Some 100, is_recording = True,
            last_write_time = 106 \<rparr> 106,
        Flush \<lparr> capacity_seconds = 12, sample_rate = 1, channels = 1, buffer_size = 12,
            buffer = [1, 1, 1, 1, 0, 1, 1, 1, 1, 1, 1, 0], write_position = 11,
            total_samples_written = 11, start_time_buf = Some 100, is_recording = False,
            last_write_time = 111 \<rparr> 112]
     = Some ([\<lparr> start_time = 0, end_time = 5, duration = 5, reason = ''natural_pause'',
                avg_volume = 5 / 6, peak_volume = 1, silence_duration = 1 \<rparr>,
              \<lparr> start_time = 5, end_time = 11, duration = 6, reason = ''final_flush'',
                avg_volume = 1, peak_volume = 1, silence_duration = 0 \<rparr>],
             \<lparr> config =
                 \<lparr> min_segment_duration = 1, target_segment_duration = 5,
                   max_segment_duration = 10, volume_drop_threshold = 7 / 10,
                   silence_threshold = 2 / 100, min_pause_duration = 1 / 2,
                   analysis_window = 1, lookback_window = 5 \<rparr>,
               current_segment_start = 11, last_analysis_time = 6, last_speech_time = 5,
               volume_history = [(0, 1), (1, 1), (2, 1), (3, 1), (4, 0), (5, 1)],
               detected_segments =
                 [\<lparr> start_time = 0, end_time = 5, duration = 5, reason = ''natural_pause'',
                avg_volume = 5 / 6, peak_volume = 1, silence_duration = 1 \<rparr>,
                  \<lparr> start_time = 5, end_time = 11, duration = 6, reason = ''final_flush'',
                avg_volume = 1, peak_volume = 1, silence_duration = 0 \<rparr>],
               is_analyzing = True \<rparr>)
   \<and> partition_from 0
         [\<lparr> start_time = 0, end_time = 5, duration = 5, reason = ''natural_pause'',
                avg_volume = 5 / 6, peak_volume = 1, silence_duration = 1 \<rparr>,
          \<lparr> start_time = 5, end_time = 11, duration = 6, reason = ''final_flush'',
                avg_volume = 1, peak_volume = 1, silence_duration = 0 \<rparr>]"
proof -
  let ?s0 = "init_segmenter
         (default_config\<lparr> min_segment_duration := 1, target_segment_duration := 5,
                         max_segment_duration := 10 \<rparr>)"
  have c1: "0 < max_segment_duration (config ?s0)"
    and c2: "lookback_window (config ?s0) \<le> target_segment_duration (config ?s0)"
    and c3: "0 < min_pause_duration (config ?s0)"
    by (simp_all add: init_segmenter_def default_config_def)
  have r: "run_calls (start_analysis (init_segmenter
         (default_config\<lparr> min_segment_duration := 1, target_segment_duration := 5,
                         max_segment_duration := 10 \<rparr>)))
       [Analyze \<lparr> capacity_seconds = 12, sample_rate = 1, channels = 1, buffer_size = 12,
            buffer = [1, 1, 1, 1, 0, 1, 0, 0, 0, 0, 0, 0], write_position = 6,
            total_samples_written = 6, start_time_buf = Some 100, is_recording = True,
            last_write_time = 106 \<rparr> 106,
        Flush \<lparr> capacity_seconds = 12, sample_rate = 1, channels = 1, buffer_size = 12,
            buffer = [1, 1, 1, 1, 0, 1, 1, 1, 1, 1, 1, 0], write_position = 11,
            total_samples_written = 11, start_time_buf = Some 100, is_recording = False,
            last_write_time = 111 \<rparr> 112]
     = Some ([\<lparr> start_time = 0, end_time = 5, duration = 5, reason = ''natural_pause'',
                avg_volume = 5 / 6, peak_volume = 1, silence_duration = 1 \<rparr>,
              \<lparr> start_time = 5, end_time = 11, duration = 6, reason = ''final_flush'',
                avg_volume = 1, peak_volume = 1, silence_duration = 0 \<rparr>],
             \<lparr> config =
                 \<lparr> min_segment_duration = 1, target_segment_duration = 5,
                   max_segment_duration = 10, volume_drop_threshold = 7 / 10,
                   silence_threshold = 2 / 100, min_pause_duration = 1 / 2,
                   analysis_window = 1, lookback_window = 5 \<rparr>,
               current_segment_start = 11, last_analysis_time = 6, last_speech_time = 5,
               volume_history = [(0, 1), (1, 1), (2, 1), (3, 1), (4, 0), (5, 1)],
               detected_segments =
                 [\<lparr> start_time = 0, end_time = 5, duration = 5, reason = ''natural_pause'',
                avg_volume = 5 / 6, peak_volume = 1, silence_duration = 1 \<rparr>,
                  \<lparr> start_time = 5, end_time = 11, duration = 6, reason = ''final_flush'',
                avg_volume = 1, peak_volume = 1, silence_duration = 0 \<rparr>],
               is_analyzing = True \<rparr>)"
    by (simp add: segmenter_eval default_config_def)
  from short_lookback_partition [OF c1 c2 c3 r] r show ?thesis by blast
qed

text \<open>
  Claim C10: after \<^verbatim>\<open>start_analysis\<close> the emitted segments form a contiguous partition
  of audio time, every segment ending after it starts.  The code can break this where the
  lookback window is longer than the target segment duration, because the pause search
  then looks back beyond the start of the current segment.  The run below uses the
  default configuration, lookback of 5 s included, with the three durations that
  \<^verbatim>\<open>transcribe.py\<close> reads from the environment set to min = target = 1 s and max = 3 s,
  at one sample per second.  The samples 1, 0, 1 are written and the first call, at
  \<open>T = 3\<close>, emits the segment from 0 to 3 by \<^verbatim>\<open>max_length\<close>; the samples 1, 1 follow
  and the second call, at \<open>T = 5\<close>, finds the silent window at 1 s, which ended at 2 s
  and lies in the segment already emitted, and emits a \<^verbatim>\<open>natural_pause\<close> segment that
  starts at 3, ends at 2 and has duration -1.  The next segment then starts at 2, so the
  audio between 2 and 3 is covered twice.
\<close>

theorem natural_pause_segment_ends_before_it_starts:
  "write_buf (start_recording (init_buffer 10 1 1 99) 100) [1, 0, 1] 103
     = Inr \<lparr> capacity_seconds = 10, sample_rate = 1, channels = 1, buffer_size = 10,
             buffer = [1, 0, 1, 0, 0, 0, 0, 0, 0, 0], write_position = 3,
             total_samples_written = 3, start_time_buf = Some 100, is_recording = True,
             last_write_time = 103 \<rparr>
   \<and> write_buf \<lparr> capacity_seconds = 10, sample_rate = 1, channels = 1, buffer_size = 10,
             buffer = [1, 0, 1, 0, 0, 0, 0, 0, 0, 0], write_position = 3,
             total_samples_written = 3, start_time_buf = Some 100, is_recording = True,
             last_write_time = 103 \<rparr> [1, 1] 105
     = Inr \<lparr> capacity_seconds = 10, sample_rate = 1, channels = 1, buffer_size = 10,
             buffer = [1, 0, 1, 1, 1, 0, 0, 0, 0, 0], write_position = 5,
             total_samples_written = 5, start_time_buf = Some 100, is_recording = True,
             last_write_time = 105 \<rparr>
   \<and> run_calls (start_analysis (init_segmenter
         (default_config\<lparr> min_segment_duration := 1, target_segment_duration := 1,
                           max_segment_duration := 3 \<rparr>)))
       [Analyze \<lparr> capacity_seconds = 10, sample_rate = 1, channels = 1, buffer_size = 10,
             buffer = [1, 0, 1, 0, 0, 0, 0, 0, 0, 0], write_position = 3,
             total_samples_written = 3, start_time_buf = Some 100, is_recording = True,
             last_write_time = 103 \<rparr> 103,
        Analyze \<lparr> capacity_seconds = 10, sample_rate = 1, channels = 1, buffer_size = 10,
             buffer = [1, 0, 1, 1, 1, 0, 0, 0, 0, 0], write_position = 5,
             total_samples_written = 5, start_time_buf = Some 100, is_recording = True,
             last_write_time = 105 \<rparr> 105]
     = Some ([\<lparr> start_time = 0, end_time = 3, duration = 3, reason = ''max_length'',
                avg_volume = 2 / 3, peak_volume = 1, silence_duration = 0 \<rparr>,
              \<lparr> start_time = 3, end_time = 2, duration = - 1, reason = ''natural_pause'',
                avg_volume = 0, peak_volume = 0, silence_duration = 1 \<rparr>],
             \<lparr> config =
                 \<lparr> min_segment_duration = 1, target_segment_duration = 1,
                   max_segment_duration = 3, volume_drop_threshold = 7 / 10,
                   silence_threshold = 2 / 100, min_pause_duration = 1 / 2,
                   analysis_window = 1, lookback_window = 5 \<rparr>,
               current_segment_start = 2, last_analysis_time = 5, last_speech_time = 4,
               volume_history = [(0, 1), (1, 0), (2, 1), (3, 1), (4, 1)],
               detected_segments =
                 [\<lparr> start_time = 0, end_time = 3, duration = 3, reason = ''max_length'',
                avg_volume = 2 / 3, peak_volume = 1, silence_duration = 0 \<rparr>,
                  \<lparr> start_time = 3, end_time = 2, duration = - 1, reason = ''natural_pause'',
                avg_volume = 0, peak_volume = 0, silence_duration = 1 \<rparr>],
               is_analyzing = True \<rparr>)
   \<and> \<not> partition_from 0
         [\<lparr> start_time = 0, end_time = 3, duration = 3, reason = ''max_length'',
                avg_volume = 2 / 3, peak_volume = 1, silence_duration = 0 \<rparr>,
          \<lparr> start_time = 3, end_time = 2, duration = - 1, reason = ''natural_pause'',
                avg_volume = 0, peak_volume = 0, silence_duration = 1 \<rparr>]"
proof (intro conjI)
  show "\<not> partition_from 0
         [\<lparr> start_time = 0, end_time = 3, duration = 3, reason = ''max_length'',
                avg_volume = 2 / 3, peak_volume = 1, silence_duration = 0 \<rparr>,
          \<lparr> start_time = 3, end_time = 2, duration = - 1, reason = ''natural_pause'',
                avg_volume = 0, peak_volume = 0, silence_duration = 1 \<rparr>]"
    by simp
qed (simp_all add: segmenter_eval default_config_def write_buf_def start_recording_def
      init_buffer_def replicate_numeral_unfold)

section \<open>Transcript assembler: the current transcript\<close>

lemma collect_parts_acc:
  "collect_parts segments ids acc =
     acc @ concat (map (\<lambda>segment_id. part_of (dict_get segments segment_id)) ids)"
  by (induction ids arbitrary: acc) (auto split: option.splits)

lemma get_current_transcript_eq:
  "get_current_transcript a = str_join '' '' (completed_texts a)"
  by (simp add: get_current_transcript_def completed_texts_def collect_parts_acc)

lemma dict_get_dict_set:
  "dict_get (dict_set k v d) k' = (if k' = k then Some v else dict_get d k')"
  by (induction d) (auto simp: dict_get_def)

lemma update_empty_segment_counter_frame:
  "transcription_segments (update_empty_segment_counter a text) = transcription_segments a"
  "segment_order (update_empty_segment_counter a text) = segment_order a"
  "empty_segment_threshold (update_empty_segment_counter a text) = empty_segment_threshold a"
  "empty_segment_min_chars (update_empty_segment_counter a text) = empty_segment_min_chars a"
  by (simp_all add: update_empty_segment_counter_def Let_def)

lemma transcribe_segment_end_order:
  "segment_order (transcribe_segment_end a i text elapsed) = segment_order a"
  by (simp add: transcribe_segment_end_def Let_def update_empty_segment_counter_frame
      split: option.splits)

lemma transcribe_segment_end_lookup:
  "dict_get (transcription_segments (transcribe_segment_end a i text elapsed)) k =
     (if k = i
      then map_option (\<lambda>seg. seg\<lparr> transcription := text, processing_time := elapsed,
                                   status := ''completed'' \<rparr>)
             (dict_get (transcription_segments a) i)
      else dict_get (transcription_segments a) k)"
  by (simp add: transcribe_segment_end_def Let_def update_empty_segment_counter_frame
      dict_get_dict_set split: option.splits)

lemma completed_texts_end_commute:
  assumes "i \<noteq> j"
  shows "completed_texts (transcribe_segment_end (transcribe_segment_end a i t1 p1) j t2 p2)
         = completed_texts (transcribe_segment_end (transcribe_segment_end a j t2 p2) i t1 p1)"
proof -
  have "\<And>k. dict_get (transcription_segments
                (transcribe_segment_end (transcribe_segment_end a i t1 p1) j t2 p2)) k
           = dict_get (transcription_segments
                (transcribe_segment_end (transcribe_segment_end a j t2 p2) i t1 p1)) k"
    using assms by (simp add: transcribe_segment_end_lookup)
  then show ?thesis
    by (simp add: completed_texts_def transcribe_segment_end_order)
qed

text \<open>
  Claim C3.  In every assembler state, \<^verbatim>\<open>get_current_transcript\<close> is the join, with
  single spaces, of the non-empty stripped texts of the completed segments, taken in the
  order in which their identifiers were appended to \<^verbatim>\<open>segment_order\<close>; segments that
  are pending, processing or failed contribute nothing.  Completing a segment does not
  touch that order, and the transcript does not depend on which of two segments
  completed first.
\<close>

theorem get_current_transcript_submission_order:
  "get_current_transcript a = str_join '' '' (completed_texts a)
   \<and> segment_order (transcribe_segment_end a i t1 p1) = segment_order a
   \<and> (i \<noteq> j \<longrightarrow>
        get_current_transcript (transcribe_segment_end (transcribe_segment_end a i t1 p1) j t2 p2)
        = get_current_transcript (transcribe_segment_end (transcribe_segment_end a j t2 p2) i t1 p1))"
  by (simp add: get_current_transcript_eq transcribe_segment_end_order completed_texts_end_commute)

theorem get_current_transcript_submission_order_witness:
  "''seg_a'' \<noteq> ''seg_b''
   \<and> get_current_transcript
        (transcribe_segment_end
          (transcribe_segment_end
            (snd (add_segment_for_transcription
              (snd (add_segment_for_transcription
                (start_session (init_assembler True 3 10) ''stream_1'' 0)
                ''seg_a''
                \<lparr> start_time = 0, end_time = 30, duration = 30, reason = ''max_length'',
                  avg_volume = 0, peak_volume = 0, silence_duration = 0 \<rparr> 31))
              ''seg_b''
              \<lparr> start_time = 30, end_time = 60, duration = 30, reason = ''max_length'',
                avg_volume = 0, peak_volume = 0, silence_duration = 0 \<rparr> 61))
            ''seg_b'' '' world '' 1)
          ''seg_a'' ''hello'' 5)
     = ''hello world''
   \<and> get_current_transcript
        (transcribe_segment_end
          (transcribe_segment_end
            (snd (add_segment_for_transcription
              (snd (add_segment_for_transcription
                (start_session (init_assembler True 3 10) ''stream_1'' 0)
                ''seg_a''
                \<lparr> start_time = 0, end_time = 30, duration = 30, reason = ''max_length'',
                  avg_volume = 0, peak_volume = 0, silence_duration = 0 \<rparr> 31))
              ''seg_b''
              \<lparr> start_time = 30, end_time = 60, duration = 30, reason = ''max_length'',
                avg_volume = 0, peak_volume = 0, silence_duration = 0 \<rparr> 61))
            ''seg_a'' ''hello'' 5)
          ''seg_b'' '' world '' 1)
     = ''hello world''"
proof -
  let ?a = "snd (add_segment_for_transcription
              (snd (add_segment_for_transcription
                (start_session (init_assembler True 3 10) ''stream_1'' 0)
                ''seg_a''
                \<lparr> start_time = 0, end_time = 30, duration = 30, reason = ''max_length'',
                  avg_volume = 0, peak_volume = 0, silence_duration = 0 \<rparr> 31))
              ''seg_b''
              \<lparr> start_time = 30, end_time = 60, duration = 30, reason = ''max_length'',
                avg_volume = 0, peak_volume = 0, silence_duration = 0 \<rparr> 61)"
  have n: "''seg_a'' \<noteq> ''seg_b''" by simp
  have e: "get_current_transcript
             (transcribe_segment_end (transcribe_segment_end ?a ''seg_a'' ''hello'' 5)
                ''seg_b'' '' world '' 1) = ''hello world''"
    by (simp add: start_session_def init_assembler_def add_segment_for_transcription_def
        transcribe_segment_end_def update_empty_segment_counter_def get_current_transcript_def
        dict_get_def strip_def is_space_def Let_def)
  from get_current_transcript_submission_order
         [of ?a "''seg_b''" "'' world ''" 1 "''seg_a''" "''hello''" 5] n e
  show ?thesis by simp
qed

section \<open>Transcript assembler: automatic stop\<close>

lemma strip_Nil: "strip [] = []"
  by (simp add: strip_def)

lemma length_lastn: "length (lastn n xs) \<le> n"
  by (simp add: lastn_def)

lemma lastn_lastn_append: "lastn n (lastn n xs @ ys) = lastn n (xs @ ys)"
  by (cases "length xs \<le> n") (auto simp: lastn_def add.commute)

lemma update_empty_segment_counter_window:
  assumes "length (recent_segment_texts a) \<le> nat (empty_segment_threshold a)"
  shows "recent_segment_texts (update_empty_segment_counter a text)
         = lastn (nat (empty_segment_threshold a)) (recent_segment_texts a @ [strip text])"
proof (cases "int (length (recent_segment_texts a)) + 1 > empty_segment_threshold a")
  case True
  with assms have "length (recent_segment_texts a) = nat (empty_segment_threshold a)"
    by linarith
  with True show ?thesis
    by (cases "recent_segment_texts a")
       (auto simp: update_empty_segment_counter_def Let_def lastn_def strip_Nil)
next
  case False
  then show ?thesis
    by (auto simp: update_empty_segment_counter_def Let_def lastn_def strip_Nil)
qed

lemma transcribe_segment_end_window:
  assumes "length (recent_segment_texts a) \<le> nat (empty_segment_threshold a)"
  shows "recent_segment_texts (transcribe_segment_end a i text elapsed)
         = lastn (nat (empty_segment_threshold a)) (recent_segment_texts a @ [strip text])"
    and "empty_segment_threshold (transcribe_segment_end a i text elapsed) = empty_segment_threshold a"
    and "empty_segment_min_chars (transcribe_segment_end a i text elapsed) = empty_segment_min_chars a"
proof -
  let ?a1 = "case dict_get (transcription_segments a) i of
           None \<Rightarrow> a
         | Some seg \<Rightarrow>
             a\<lparr> transcription_segments :=
                   dict_set i
                     (seg\<lparr> transcription := text, processing_time := elapsed,
                          status := ''completed'' \<rparr>)
                     (transcription_segments a),
                processing_stats := (processing_stats a)
                   \<lparr> segments_completed := segments_completed (processing_stats a) + 1,
                     total_processing_time := total_processing_time (processing_stats a) + elapsed \<rparr> \<rparr>"
  have f: "recent_segment_texts ?a1 = recent_segment_texts a"
    "empty_segment_threshold ?a1 = empty_segment_threshold a"
    "empty_segment_min_chars ?a1 = empty_segment_min_chars a"
    by (simp_all split: option.splits)
  have e: "transcribe_segment_end a i text elapsed = update_empty_segment_counter ?a1 text"
    by (simp add: transcribe_segment_end_def Let_def)
  from assms f have "length (recent_segment_texts ?a1) \<le> nat (empty_segment_threshold ?a1)"
    by simp
  from update_empty_segment_counter_window [OF this] f
  show "recent_segment_texts (transcribe_segment_end a i text elapsed)
         = lastn (nat (empty_segment_threshold a)) (recent_segment_texts a @ [strip text])"
    unfolding e by simp
  show "empty_segment_threshold (transcribe_segment_end a i text elapsed) = empty_segment_threshold a"
    unfolding e by (simp add: update_empty_segment_counter_frame f)
  show "empty_segment_min_chars (transcribe_segment_end a i text elapsed) = empty_segment_min_chars a"
    unfolding e by (simp add: update_empty_segment_counter_frame f)
qed

lemma finish_all_window:
  assumes "length (recent_segment_texts a) \<le> nat (empty_segment_threshold a)"
  shows "recent_segment_texts (finish_all a events)
           = lastn (nat (empty_segment_threshold a))
               (recent_segment_texts a @ map (\<lambda>(i, t, p). strip t) events)
         \<and> empty_segment_threshold (finish_all a events) = empty_segment_threshold a
         \<and> empty_segment_min_chars (finish_all a events) = empty_segment_min_chars a"
  using assms
proof (induction events arbitrary: a)
  case Nil
  then show ?case by (simp add: lastn_def)
next
  case (Cons ev events)
  obtain i t p where ev: "ev = (i, t, p)" by (cases ev)
  let ?a' = "transcribe_segment_end a i t p"
  note w = transcribe_segment_end_window [OF Cons.prems, of i t p]
  have "length (recent_segment_texts ?a') \<le> nat (empty_segment_threshold ?a')"
    by (simp add: w length_lastn)
  from Cons.IH [OF this] show ?case
    by (simp add: ev w lastn_lastn_append)
qed

text \<open>
  Claim C7 fails on both of its points.  Three segments are submitted in the order
  \<open>seg_1\<close>, \<open>seg_2\<close>, \<open>seg_3\<close> and their transcriptions finish in the order \<open>seg_3\<close>
  (text gh), \<open>seg_1\<close> (abc), \<open>seg_2\<close> (def), with the default thresholds 3 and 10.  The
  window then holds the texts in the order of completion, not of submission; and
  although the three texts have 8 characters in all, fewer than 10,
  \<^verbatim>\<open>should_auto_stop\<close> returns false: it measures the texts joined with single spaces,
  which are 10 characters.
\<close>

theorem should_auto_stop_counterexample:
  "segment_order
     (transcribe_segment (transcribe_segment (transcribe_segment
        (snd (add_segment_for_transcription
          (snd (add_segment_for_transcription
            (snd (add_segment_for_transcription
              (start_session (init_assembler True 3 10) ''stream_1'' 0)
              ''seg_1''
              \<lparr> start_time = 0, end_time = 30, duration = 30, reason = ''max_length'',
                avg_volume = 0, peak_volume = 0, silence_duration = 0 \<rparr> 31))
            ''seg_2''
            \<lparr> start_time = 30, end_time = 60, duration = 30, reason = ''max_length'',
              avg_volume = 0, peak_volume = 0, silence_duration = 0 \<rparr> 61))
          ''seg_3''
          \<lparr> start_time = 60, end_time = 90, duration = 30, reason = ''max_length'',
            avg_volume = 0, peak_volume = 0, silence_duration = 0 \<rparr> 91))
        ''seg_3'' ''gh'' 1) ''seg_1'' ''abc'' 62) ''seg_2'' ''def'' 33)
     = [''seg_1'', ''seg_2'', ''seg_3'']
   \<and> recent_segment_texts
     (transcribe_segment (transcribe_segment (transcribe_segment
        (snd (add_segment_for_transcription
          (snd (add_segment_for_transcription
            (snd (add_segment_for_transcription
              (start_session (init_assembler True 3 10) ''stream_1'' 0)
              ''seg_1''
              \<lparr> start_time = 0, end_time = 30, duration = 30, reason = ''max_length'',
                avg_volume = 0, peak_volume = 0, silence_duration = 0 \<rparr> 31))
            ''seg_2''
            \<lparr> start_time = 30, end_time = 60, duration = 30, reason = ''max_length'',
              avg_volume = 0, peak_volume = 0, silence_duration = 0 \<rparr> 61))
          ''seg_3''
          \<lparr> start_time = 60, end_time = 90, duration = 30, reason = ''max_length'',
            avg_volume = 0, peak_volume = 0, silence_duration = 0 \<rparr> 91))
        ''seg_3'' ''gh'' 1) ''seg_1'' ''abc'' 62) ''seg_2'' ''def'' 33)
     = [''gh'', ''abc'', ''def'']
   \<and> int (length (''abc'' @ ''def'' @ ''gh'')) < 10
   \<and> should_auto_stop
     (transcribe_segment (transcribe_segment (transcribe_segment
        (snd (add_segment_for_transcription
          (snd (add_segment_for_transcription
            (snd (add_segment_for_transcription
              (start_session (init_assembler True 3 10) ''stream_1'' 0)
              ''seg_1''
              \<lparr> start_time = 0, end_time = 30, duration = 30, reason = ''max_length'',
                avg_volume = 0, peak_volume = 0, silence_duration = 0 \<rparr> 31))
            ''seg_2''
            \<lparr> start_time = 30, end_time = 60, duration = 30, reason = ''max_length'',
              avg_volume = 0, peak_volume = 0, silence_duration = 0 \<rparr> 61))
          ''seg_3''
          \<lparr> start_time = 60, end_time = 90, duration = 30, reason = ''max_length'',
            avg_volume = 0, peak_volume = 0, silence_duration = 0 \<rparr> 91))
        ''seg_3'' ''gh'' 1) ''seg_1'' ''abc'' 62) ''seg_2'' ''def'' 33)
     = (False, [])"
  by (simp add: start_session_def init_assembler_def add_segment_for_transcription_def
      transcribe_segment_def transcribe_segment_begin_def transcribe_segment_end_def
      update_empty_segment_counter_def should_auto_stop_def dict_get_def strip_def
      is_space_def Let_def)

text \<open>
  Claim C7, amended.  The assembler keeps the stripped texts of the last
  \<open>N = empty_segment_threshold\<close> transcriptions that finished, in the order in which they
  finished.  \<^verbatim>\<open>should_auto_stop\<close> returns true, with a reason that is not empty, exactly
  when at least \<open>N\<close> transcriptions have finished and those texts, joined with single
  spaces and stripped, have fewer than \<open>empty_segment_min_chars\<close> characters; in every
  other case it returns false and the empty reason.
\<close>

theorem should_auto_stop_recent_window:
  assumes "recent_segment_texts a = []"
  shows "recent_segment_texts (finish_all a events)
           = lastn (nat (empty_segment_threshold a)) (map (\<lambda>(i, t, p). strip t) events)
       \<and> (fst (should_auto_stop (finish_all a events)) \<longleftrightarrow>
            empty_segment_threshold a \<le> int (length events)
            \<and> int (length (strip (str_join '' '' (recent_segment_texts (finish_all a events)))))
                < empty_segment_min_chars a)
       \<and> (fst (should_auto_stop (finish_all a events)) \<longrightarrow>
            snd (should_auto_stop (finish_all a events)) \<noteq> [])
       \<and> (\<not> fst (should_auto_stop (finish_all a events)) \<longrightarrow>
            snd (should_auto_stop (finish_all a events)) = [])"
proof -
  from assms have "length (recent_segment_texts a) \<le> nat (empty_segment_threshold a)"
    by simp
  note w = finish_all_window [OF this, of events, unfolded assms, simplified]
  have l: "length (recent_segment_texts (finish_all a events))
             = min (nat (empty_segment_threshold a)) (length events)"
    using w by (simp add: lastn_def)
  have len: "int (length (recent_segment_texts (finish_all a events))) < empty_segment_threshold a
               \<longleftrightarrow> \<not> empty_segment_threshold a \<le> int (length events)"
    unfolding l by linarith
  have s: "should_auto_stop (finish_all a events) =
             (if \<not> empty_segment_threshold a \<le> int (length events) then (False, [])
              else if int (length (strip (str_join '' '' (recent_segment_texts (finish_all a events)))))
                        < empty_segment_min_chars a
              then (True, ''Last '' @ str_int (empty_segment_threshold a)
                      @ '' segments combined have < '' @ str_int (empty_segment_min_chars a)
                      @ '' chars (''
                      @ str_int (int (length (strip (str_join '' ''
                                   (recent_segment_texts (finish_all a events))))))
                      @ '' chars)'')
              else (False, []))"
    using w len by (simp add: should_auto_stop_def Let_def)
  show ?thesis
    unfolding s using w by simp
qed

theorem should_auto_stop_recent_window_witness:
  "recent_segment_texts (start_session (init_assembler True 3 10) ''stream_1'' 0) = []
   \<and> recent_segment_texts
        (finish_all (start_session (init_assembler True 3 10) ''stream_1'' 0)
           [(''seg_1'', ''yes'', 1), (''seg_2'', '' '', 1), (''seg_3'', '''', 1), (''seg_4'', ''ok '', 1)])
       = ['''', '''', ''ok'']
   \<and> fst (should_auto_stop
        (finish_all (start_session (init_assembler True 3 10) ''stream_1'' 0)
           [(''seg_1'', ''yes'', 1), (''seg_2'', '' '', 1), (''seg_3'', '''', 1), (''seg_4'', ''ok '', 1)]))
   \<and> snd (should_auto_stop
        (finish_all (start_session (init_assembler True 3 10) ''stream_1'' 0)
           [(''seg_1'', ''yes'', 1), (''seg_2'', '' '', 1), (''seg_3'', '''', 1), (''seg_4'', ''ok '', 1)]))
       \<noteq> []"
proof -
  let ?a = "start_session (init_assembler True 3 10) ''stream_1'' 0"
  let ?es = "[(''seg_1'', ''yes'', 1 :: real), (''seg_2'', '' '', 1), (''seg_3'', '''', 1),
              (''seg_4'', ''ok '', 1)]"
  have r: "recent_segment_texts ?a = []"
    by (simp add: start_session_def init_assembler_def)
  have k: "empty_segment_threshold ?a = 3" "empty_segment_min_chars ?a = 10"
    by (simp_all add: start_session_def init_assembler_def)
  note t = should_auto_stop_recent_window [OF r, of ?es, unfolded k]
  from t have w: "recent_segment_texts (finish_all ?a ?es) = ['''', '''', ''ok'']"
    by (simp add: lastn_def strip_def is_space_def)
  from t w have f: "fst (should_auto_stop (finish_all ?a ?es))"
    by (simp add: strip_def is_space_def)
  with t have "snd (should_auto_stop (finish_all ?a ?es)) \<noteq> []" by blast
  with r w f show ?thesis by blast
qed

section \<open>Transcript assembler: finalizing without content\<close>

lemma dict_get_values: "dict_get d k = Some v \<Longrightarrow> v \<in> set (dict_values d)"
  by (auto simp: dict_get_def dict_values_def dest!: map_of_SomeD intro: rev_image_eqI)

lemma completed_texts_none:
  assumes "\<forall>seg \<in> set (dict_values (transcription_segments a)). status seg \<noteq> ''completed''"
  shows "completed_texts a = []"
proof -
  have "part_of (dict_get (transcription_segments a) k) = []" for k
  proof (cases "dict_get (transcription_segments a) k")
    case None
    then show ?thesis by simp
  next
    case (Some seg)
    from dict_get_values [OF Some] assms have "status seg \<noteq> ''completed''" by blast
    with Some show ?thesis by simp
  qed
  then show ?thesis by (simp add: completed_texts_def)
qed

lemma dict_values_Cons: "dict_values (q # e) = snd q # dict_values e"
  by (simp add: dict_values_def)

lemma dict_values_dict_set:
  "x \<in> set (dict_values (dict_set k v d)) \<Longrightarrow> x = v \<or> x \<in> set (dict_values d)"
proof (induction d)
  case Nil
  then show ?case by (simp add: dict_values_def)
next
  case (Cons p d)
  obtain k' v' where p: "p = (k', v')" by (cases p)
  show ?case
  proof (cases "k' = k")
    case True
    with Cons.prems p show ?thesis by (auto simp: dict_values_Cons)
  next
    case False
    with Cons.prems p have "x = v' \<or> x \<in> set (dict_values (dict_set k v d))"
      by (simp add: dict_values_Cons)
    with Cons.IH p show ?thesis by (auto simp: dict_values_Cons)
  qed
qed

text \<open>
  A session in which no transcription finishes has no completed segment: a new session
  has no segment at all, and submitting a segment, starting its transcription or
  failing it leaves no segment completed.
\<close>

lemma session_without_completion:
  fixes a :: QuickTranscriptAssembler
  assumes "\<forall>seg \<in> set (dict_values (transcription_segments a)). status seg \<noteq> ''completed''"
  shows "\<forall>seg \<in> set (dict_values (transcription_segments (start_session a0 sid t0))).
           status seg \<noteq> ''completed''"
    and "\<forall>seg \<in> set (dict_values (transcription_segments
            (snd (add_segment_for_transcription a i info t)))). status seg \<noteq> ''completed''"
    and "\<forall>seg \<in> set (dict_values (transcription_segments
            (snd (transcribe_segment_begin a i)))). status seg \<noteq> ''completed''"
    and "\<forall>seg \<in> set (dict_values (transcription_segments
            (transcribe_segment_fail a i msg))). status seg \<noteq> ''completed''"
proof -
  show "\<forall>seg \<in> set (dict_values (transcription_segments (start_session a0 sid t0))).
           status seg \<noteq> ''completed''"
    by (simp add: start_session_def dict_values_def)
  show "\<forall>seg \<in> set (dict_values (transcription_segments
            (snd (add_segment_for_transcription a i info t)))). status seg \<noteq> ''completed''"
    using assms
    by (auto simp: add_segment_for_transcription_def Let_def dest!: dict_values_dict_set)
  show "\<forall>seg \<in> set (dict_values (transcription_segments
            (snd (transcribe_segment_begin a i)))). status seg \<noteq> ''completed''"
    using assms
    by (auto simp: transcribe_segment_begin_def split: option.splits dest!: dict_values_dict_set)
  show "\<forall>seg \<in> set (dict_values (transcription_segments
            (transcribe_segment_fail a i msg))). status seg \<noteq> ''completed''"
    using assms
    by (auto simp: transcribe_segment_fail_def split: option.splits dest!: dict_values_dict_set)
qed

text \<open>
  Claim C8.  With an active session (a session identifier that is not empty) in which
  no segment has the status \<^verbatim>\<open>completed\<close>, \<^verbatim>\<open>finalize_transcript\<close> returns a result
  with \<open>has_content\<close> false, an empty text and an empty file path, and asks nothing of
  the transcript manager or of the clipboard: its list of effects is empty.
\<close>

theorem finalize_transcript_no_content:
  assumes "truthy_str (current_session a)"
    and "\<forall>seg \<in> set (dict_values (transcription_segments a)). status seg \<noteq> ''completed''"
  shows "\<exists>r a'. finalize_transcript a now save copy = (Some r, [], a')
           \<and> \<not> has_content r \<and> transcript_text r = [] \<and> file_path r = []
           \<and> \<not> clipboard_copied r \<and> segments_count r = 0"
proof -
  have t: "get_current_transcript a = []"
    by (simp add: get_current_transcript_eq completed_texts_none [OF assms(2)])
  have c: "filter (\<lambda>seg. status seg = ''completed'') (dict_values (transcription_segments a)) = []"
    using assms(2) by (simp add: filter_empty_conv)
  show ?thesis
    using assms(1) by (simp add: finalize_transcript_def Let_def t c strip_Nil)
qed

theorem finalize_transcript_no_content_witness:
  "truthy_str (current_session
     (transcribe_segment_fail
        (snd (transcribe_segment_begin
          (snd (add_segment_for_transcription
            (start_session (init_assembler True 3 10) ''stream_1'' 0)
            ''seg_1''
            \<lparr> start_time = 0, end_time = 30, duration = 30, reason = ''max_length'',
              avg_volume = 0, peak_volume = 0, silence_duration = 0 \<rparr> 31))
          ''seg_1''))
        ''seg_1'' ''no model''))
   \<and> dict_values (transcription_segments
     (transcribe_segment_fail
        (snd (transcribe_segment_begin
          (snd (add_segment_for_transcription
            (start_session (init_assembler True 3 10) ''stream_1'' 0)
            ''seg_1''
            \<lparr> start_time = 0, end_time = 30, duration = 30, reason = ''max_length'',
              avg_volume = 0, peak_volume = 0, silence_duration = 0 \<rparr> 31))
          ''seg_1''))
        ''seg_1'' ''no model''))
      = [\<lparr> segment_info =
             \<lparr> start_time = 0, end_time = 30, duration = 30, reason = ''max_length'',
               avg_volume = 0, peak_volume = 0, silence_duration = 0 \<rparr>,
           transcription = [], timestamp = 31, processing_time = 0, status = ''failed'',
           error = Some ''no model'' \<rparr>]
   \<and> (\<exists>r a'. finalize_transcript
     (transcribe_segment_fail
        (snd (transcribe_segment_begin
          (snd (add_segment_for_transcription
            (start_session (init_assembler True 3 10) ''stream_1'' 0)
            ''seg_1''
            \<lparr> start_time = 0, end_time = 30, duration = 30, reason = ''max_length'',
              avg_volume = 0, peak_volume = 0, silence_duration = 0 \<rparr> 31))
          ''seg_1''))
        ''seg_1'' ''no model'') 100 (\<lambda>text. Some (''out.md'', ''42'')) (\<lambda>text. True)
        = (Some r, [], a') \<and> \<not> has_content r)"
proof -
  let ?a = "transcribe_segment_fail
        (snd (transcribe_segment_begin
          (snd (add_segment_for_transcription
            (start_session (init_assembler True 3 10) ''stream_1'' 0)
            ''seg_1''
            \<lparr> start_time = 0, end_time = 30, duration = 30, reason = ''max_length'',
              avg_volume = 0, peak_volume = 0, silence_duration = 0 \<rparr> 31))
          ''seg_1''))
        ''seg_1'' ''no model''"
  have v: "dict_values (transcription_segments ?a)
      = [\<lparr> segment_info =
             \<lparr> start_time = 0, end_time = 30, duration = 30, reason = ''max_length'',
               avg_volume = 0, peak_volume = 0, silence_duration = 0 \<rparr>,
           transcription = [], timestamp = 31, processing_time = 0, status = ''failed'',
           error = Some ''no model'' \<rparr>]"
    by (simp add: start_session_def init_assembler_def add_segment_for_transcription_def
        transcribe_segment_begin_def transcribe_segment_fail_def dict_get_def dict_values_def
        Let_def)
  have s: "truthy_str (current_session ?a)"
    by (simp add: start_session_def init_assembler_def add_segment_for_transcription_def
        transcribe_segment_begin_def transcribe_segment_fail_def dict_get_def Let_def)
  have n: "\<forall>seg \<in> set (dict_values (transcription_segments ?a)). status seg \<noteq> ''completed''"
    unfolding v by simp
  from finalize_transcript_no_content [OF s n, of 100 "\<lambda>text. Some (''out.md'', ''42'')" "\<lambda>text. True"]
  have "\<exists>r a'. finalize_transcript ?a 100 (\<lambda>text. Some (''out.md'', ''42'')) (\<lambda>text. True)
          = (Some r, [], a') \<and> \<not> has_content r"
    by blast
  with s v show ?thesis by blast
qed

end
